theory Spec2Isabelle
  imports Main "HOL-Library.Multiset"
begin

section \<open>Strings\<close>

text \<open>
  A Go string is a sequence of bytes: \<open>len\<close> counts bytes and \<open>s[i]\<close> reads one byte.
  \<open>string\<close> (a list of 8-bit characters) has the same shape.
\<close>

definition HasSuffix :: "string \<Rightarrow> string \<Rightarrow> bool" where
  \<comment> \<open>strings.HasSuffix\<close>
  "HasSuffix s suffix \<longleftrightarrow>
     length suffix \<le> length s \<and> drop (length s - length suffix) s = suffix"

definition TrimSuffix :: "string \<Rightarrow> string \<Rightarrow> string" where
  \<comment> \<open>strings.TrimSuffix: one occurrence of the suffix is removed, when present\<close>
  "TrimSuffix s suffix =
     (if HasSuffix s suffix then take (length s - length suffix) s else s)"

section \<open>Slug derivation\<close>

definition deriveSlug :: "string \<Rightarrow> string" where
  \<comment> \<open>main.go, deriveSlug. The three index reads are guarded by the length test,
      as in the source, where \<open>&&\<close> short-circuits.\<close>
  "deriveSlug filename =
     (let name = TrimSuffix filename ''.md''
      in if length name > 11 \<and> name ! 4 = CHR ''-'' \<and> name ! 7 = CHR ''-''
            \<and> name ! 10 = CHR ''-''
         then drop 11 name
         else name)"

definition isDigit :: "char \<Rightarrow> bool" where
  "isDigit c \<longleftrightarrow> c \<in> set ''0123456789''"

definition datePrefix :: "string \<Rightarrow> bool" where
  \<comment> \<open>The prefix shape as the specification words it, \<open>NNNN-NN-NN-\<close>: eleven
      characters, digits except for the hyphens at offsets 4, 7 and 10.\<close>
  "datePrefix p \<longleftrightarrow>
     length p = 11 \<and> p ! 4 = CHR ''-'' \<and> p ! 7 = CHR ''-'' \<and> p ! 10 = CHR ''-''
     \<and> list_all isDigit (map ((!) p) [0, 1, 2, 3, 5, 6, 8, 9])"

definition hyphenPrefix :: "string \<Rightarrow> bool" where
  \<comment> \<open>The prefix shape the code tests: eleven characters with hyphens at offsets
      4, 7 and 10; the other eight characters are not looked at.\<close>
  "hyphenPrefix p \<longleftrightarrow>
     length p = 11 \<and> p ! 4 = CHR ''-'' \<and> p ! 7 = CHR ''-'' \<and> p ! 10 = CHR ''-''"

definition hasDatePrefix :: "string \<Rightarrow> bool" where
  \<comment> \<open>a stem of the shape \<open>NNNN-NN-NN-rest\<close> with a non-empty rest\<close>
  "hasDatePrefix name \<longleftrightarrow> length name > 11 \<and> datePrefix (take 11 name)"

definition hasHyphenPrefix :: "string \<Rightarrow> bool" where
  "hasHyphenPrefix name \<longleftrightarrow> length name > 11 \<and> hyphenPrefix (take 11 name)"

section \<open>Data model\<close>

text \<open>
  \<open>time.Time\<close> is a library type. The program observes a time through \<open>After\<close>
  (a comparison of instants), \<open>Year\<close> (the calendar year in the time's own location)
  and \<open>Format\<close>; a time is modelled by the first two observations, and formatting is a
  function of the environment.
\<close>

record Time =
  instant :: int
  year :: int

definition Time_After :: "Time \<Rightarrow> Time \<Rightarrow> bool" where
  "Time_After t u \<longleftrightarrow> instant t > instant u"

definition Time_Year :: "Time \<Rightarrow> int" where
  "Time_Year t = year t"

definition zeroTime :: Time where
  \<comment> \<open>the zero value of \<open>time.Time\<close>: 1 January of year 1, 00:00:00 UTC\<close>
  "zeroTime = \<lparr>instant = - 62135596800, year = 1\<rparr>"

record SiteConfig =
  SiteTitle :: string
  SiteURL :: string
  SiteDescription :: string

record Post =
  Title :: string
  Slug :: string
  Date :: Time
  Description :: string
  Content :: string
  URL :: string

record HomePage =
  HomeSite :: SiteConfig
  HomePosts :: "Post list"

record PostPage =
  PageSite :: SiteConfig
  PagePost :: Post

record YearGroup =
  Year :: int
  Posts :: "Post list"

record ArchivePage =
  ArchiveSite :: SiteConfig
  Years :: "YearGroup list"

record RSSItem =
  ItemTitle :: string
  ItemLink :: string
  ItemDescription :: string
  PubDate :: string
  GUID :: string

record RSSChannel =
  ChannelTitle :: string
  ChannelLink :: string
  ChannelDescription :: string
  LastBuild :: string
  Items :: "RSSItem list"

record RSSFeed =
  Version :: string
  Channel :: RSSChannel

definition contentDir :: string where "contentDir = ''posts''"
definition outputDir :: string where "outputDir = ''docs''"
definition postsPerPage :: nat where "postsPerPage = 5"
definition postsInFeed :: nat where "postsInFeed = 20"

section \<open>Errors and the environment\<close>

datatype error =
  LibError string
  | Errorf string error
  | ErrorfQ string string error

text \<open>
  \<open>LibError\<close> is an error returned by the operating system or a library;
  \<open>Errorf msg e\<close> is \<open>fmt.Errorf("msg: %w", e)\<close>, and \<open>ErrorfQ msg s e\<close> is
  \<open>fmt.Errorf("msg %q: %w", s, e)\<close>, whose text holds the string \<open>s\<close> in double
  quotes, escaped as \<open>%q\<close> does.
\<close>

datatype MetaVal =
  VBool bool
  | VString string
  | VTime Time
  | VOther string

text \<open>
  The front matter is a \<open>map[string]interface{}\<close>; \<open>MetaVal\<close> has one constructor for
  each dynamic type the program asserts, and \<open>VOther\<close> for every other one.
\<close>

type_synonym MetaData = "string \<rightharpoonup> MetaVal"

record DirEntry =
  Name :: string
  IsDir :: bool

datatype Page =
  Home HomePage
  | Single PostPage
  | Archive ArchivePage
  | Feed RSSFeed

text \<open>
  What is written to an output file: the data handed to a template or to the XML
  encoder. The output tree maps the path of each file written so far to its page;
  \<open>os.Create\<close> on a path written before replaces the page.
\<close>

type_synonym Tree = "string \<rightharpoonup> Page"

record World =
  ReadDir :: "string \<Rightarrow> error + DirEntry list"
  ReadFile :: "string \<Rightarrow> error + string"
  Convert :: "string \<Rightarrow> error + string \<times> MetaData"
  ParseTime :: "string \<Rightarrow> error + Time"
  FormatRFC1123Z :: "Time \<Rightarrow> string"
  Unmarshal :: "string \<Rightarrow> error + SiteConfig"
  SortPosts :: "(Post \<Rightarrow> Post \<Rightarrow> bool) \<Rightarrow> Post list \<Rightarrow> Post list"
  RangeYears :: "(int \<rightharpoonup> Post list) \<Rightarrow> (int \<times> Post list) list"
  SortYears :: "(YearGroup \<Rightarrow> YearGroup \<Rightarrow> bool) \<Rightarrow> YearGroup list \<Rightarrow> YearGroup list"
  MkdirAll :: "string \<Rightarrow> error option"
  Create :: "string \<Rightarrow> error option"
  Execute :: "string \<Rightarrow> Page \<Rightarrow> error option"
  WriteHeader :: "error option"
  Encode :: "RSSFeed \<Rightarrow> error option"
  CleanDir :: "string \<Rightarrow> error option"
  ParseTemplates :: "error option"
  CopyStaticFiles :: "error option"
  WriteFile :: "string \<Rightarrow> error option"

text \<open>
  \<open>World\<close> collects what the program takes from outside.
  \<^item> The file system read: \<open>os.ReadDir\<close>, \<open>os.ReadFile\<close>.
  \<^item> Libraries: the Markdown converter with its front-matter extension (\<open>md.Convert\<close>
    followed by \<open>meta.Get\<close>), \<open>time.Parse\<close> with the layout \<open>2006-01-02\<close>,
    \<open>Time.Format\<close> with \<open>time.RFC1123Z\<close>, \<open>yaml.Unmarshal\<close> into a zero
    \<open>SiteConfig\<close>.
  \<^item> What the language leaves open: \<open>sort.Slice\<close> on the posts and on the year groups
    (not stable: the order of equal elements is unspecified) and the order in which
    \<open>range\<close> visits the entries of the year map.
  \<^item> The failures of writing: \<open>os.MkdirAll\<close>, \<open>os.Create\<close>, the execution of the
    template of a given name on a page, \<open>f.WriteString(xml.Header)\<close>, the XML encoder.
  \<^item> The steps of a run that no property below looks into, as their outcome only:
    cleanDir, parseTemplates, copyStaticFiles, and the \<open>os.WriteFile\<close> of the marker.
  \<open>None\<close> is a \<open>nil\<close> error.
\<close>

section \<open>Parsing posts\<close>

definition contentPath :: "string \<Rightarrow> string" where
  \<comment> \<open>\<open>filepath.Join(contentDir, filename)\<close> for the name of a directory entry\<close>
  "contentPath filename = contentDir @ ''/'' @ filename"

definition isDraft :: "MetaData \<Rightarrow> bool" where
  \<comment> \<open>the two nested tests of parsePost: the key is present, its value is a bool,
      and the bool is true\<close>
  "isDraft metaData =
     (case metaData ''draft'' of
        Some draft \<Rightarrow> (case draft of VBool d \<Rightarrow> d | _ \<Rightarrow> False)
      | None \<Rightarrow> False)"

definition stringOf :: "MetaVal option \<Rightarrow> string" where
  \<comment> \<open>\<open>s, _ := v.(string)\<close>: the empty string when the key is missing or not a string\<close>
  "stringOf v = (case v of Some (VString s) \<Rightarrow> s | _ \<Rightarrow> [])"

definition parseDate :: "World \<Rightarrow> MetaData \<Rightarrow> error + Time" where
  "parseDate W metaData =
     (case metaData ''date'' of
        Some (VString d) \<Rightarrow>
          (case ParseTime W d of
             Inl err \<Rightarrow> Inl (ErrorfQ ''parsing date'' d err)
           | Inr t \<Rightarrow> Inr t)
      | Some (VTime d) \<Rightarrow> Inr d
      | _ \<Rightarrow> Inr zeroTime)"

definition buildPost :: "World \<Rightarrow> string \<Rightarrow> string \<Rightarrow> MetaData \<Rightarrow> error + Post option" where
  \<comment> \<open>parsePost after the conversion: \<open>Inr None\<close> is the \<open>nil, nil\<close> of a draft\<close>
  "buildPost W filename html metaData =
     (if isDraft metaData then Inr None
      else
        let title = stringOf (metaData ''title'');
            title = (if title = [] then ''Untitled'' else title);
            description = stringOf (metaData ''description'')
        in case parseDate W metaData of
             Inl err \<Rightarrow> Inl err
           | Inr date \<Rightarrow>
               let slug = deriveSlug filename
               in Inr (Some \<lparr>Title = title, Slug = slug, Date = date,
                     Description = description, Content = html,
                     URL = ''/posts/'' @ slug @ ''/''\<rparr>))"

definition parsePost :: "World \<Rightarrow> string \<Rightarrow> string list \<Rightarrow> (error + Post option) \<times> string list" where
  \<comment> \<open>The third argument and the second result are the paths read so far.\<close>
  "parsePost W filename reads =
     (let path = contentPath filename; reads = reads @ [path]
      in case ReadFile W path of
           Inl err \<Rightarrow> (Inl err, reads)
         | Inr source \<Rightarrow>
             (case Convert W source of
                Inl err \<Rightarrow> (Inl (Errorf ''converting markdown'' err), reads)
              | Inr (html, metaData) \<Rightarrow> (buildPost W filename html metaData, reads)))"

definition skipped :: "DirEntry \<Rightarrow> bool" where
  \<comment> \<open>the \<open>continue\<close> test of parsePosts\<close>
  "skipped entry \<longleftrightarrow> IsDir entry \<or> \<not> HasSuffix (Name entry) ''.md''"

fun parsePosts_loop ::
  "World \<Rightarrow> DirEntry list \<Rightarrow> Post list \<Rightarrow> string list \<Rightarrow> (error + Post list) \<times> string list" where
  "parsePosts_loop W [] posts reads = (Inr posts, reads)"
| "parsePosts_loop W (entry # entries) posts reads =
     (if skipped entry then parsePosts_loop W entries posts reads
      else case parsePost W (Name entry) reads of
             (Inl err, reads') \<Rightarrow> (Inl (Errorf (''parsing '' @ Name entry) err), reads')
           | (Inr None, reads') \<Rightarrow> parsePosts_loop W entries posts reads'
           | (Inr (Some post), reads') \<Rightarrow> parsePosts_loop W entries (posts @ [post]) reads')"

definition parsePosts :: "World \<Rightarrow> (error + Post list) \<times> string list" where
  "parsePosts W =
     (case ReadDir W contentDir of
        Inl err \<Rightarrow> (Inl (Errorf ''reading content dir'' err), [])
      | Inr entries \<Rightarrow> parsePosts_loop W entries [] [])"


section \<open>What a directory entry contributes\<close>

definition frontMatter :: "World \<Rightarrow> string \<Rightarrow> MetaData option" where
  \<comment> \<open>the front matter parsePost finds in a content file, when the file can be read
      and converted\<close>
  "frontMatter W filename =
     (case ReadFile W (contentPath filename) of
        Inl err \<Rightarrow> None
      | Inr source \<Rightarrow> (case Convert W source of Inl err \<Rightarrow> None | Inr (html, metaData) \<Rightarrow> Some metaData))"

definition postOf :: "World \<Rightarrow> DirEntry \<Rightarrow> Post option" where
  \<comment> \<open>the post a directory entry contributes to the collection, if any\<close>
  "postOf W entry =
     (if skipped entry then None
      else case fst (parsePost W (Name entry) []) of Inr (Some post) \<Rightarrow> Some post | _ \<Rightarrow> None)"

definition isDraftEntry :: "World \<Rightarrow> DirEntry \<Rightarrow> bool" where
  \<comment> \<open>a content file whose front matter has \<open>draft: true\<close>\<close>
  "isDraftEntry W entry \<longleftrightarrow>
     \<not> skipped entry \<and>
     (case frontMatter W (Name entry) of
        Some metaData \<Rightarrow> metaData ''draft'' = Some (VBool True)
      | None \<Rightarrow> False)"

section \<open>Configuration\<close>

definition loadConfig :: "World \<Rightarrow> error + SiteConfig" where
  "loadConfig W =
     (case ReadFile W ''site.yml'' of
        Inl err \<Rightarrow> Inl (Errorf ''reading site.yml'' err)
      | Inr data \<Rightarrow>
          (case Unmarshal W data of
             Inl err \<Rightarrow> Inl (Errorf ''parsing site.yml'' err)
           | Inr cfg \<Rightarrow>
               let cfg = (if SiteTitle cfg = [] then cfg\<lparr>SiteTitle := ''My Blog''\<rparr> else cfg);
                   cfg = (if SiteURL cfg = [] then cfg\<lparr>SiteURL := ''https://example.com''\<rparr>
                          else cfg)
               in Inr cfg))"

section \<open>Sorting and map iteration\<close>

definition sortSlice_result :: "('a \<Rightarrow> 'a \<Rightarrow> bool) \<Rightarrow> 'a list \<Rightarrow> 'a list \<Rightarrow> bool" where
  \<comment> \<open>What \<open>sort.Slice(xs, lessFn)\<close> promises of the slice \<open>ys\<close> it leaves: the same
      elements, none of them less than an earlier one.\<close>
  "sortSlice_result lessFn xs ys \<longleftrightarrow> mset ys = mset xs \<and> sorted_wrt (\<lambda>a b. \<not> lessFn b a) ys"

definition range_result :: "('k \<rightharpoonup> 'v) \<Rightarrow> ('k \<times> 'v) list \<Rightarrow> bool" where
  \<comment> \<open>What \<open>range\<close> promises of the entries \<open>kvs\<close> it visits in a map: each entry of
      the map once, in some order.\<close>
  "range_result m kvs \<longleftrightarrow> distinct (map fst kvs) \<and> map_of kvs = m"

definition byDate :: "Post \<Rightarrow> Post \<Rightarrow> bool" where
  \<comment> \<open>the less function of runGenerate: \<open>posts[i].Date.After(posts[j].Date)\<close>\<close>
  "byDate a b \<longleftrightarrow> Time_After (Date a) (Date b)"

definition byYear :: "YearGroup \<Rightarrow> YearGroup \<Rightarrow> bool" where
  \<comment> \<open>the less function of generateArchivePage: \<open>years[i].Year > years[j].Year\<close>\<close>
  "byYear a b \<longleftrightarrow> Year a > Year b"

section \<open>Output paths\<close>

fun splitOn :: "char \<Rightarrow> string \<Rightarrow> string list" where
  "splitOn c [] = [[]]"
| "splitOn c (x # xs) =
     (if x = c then [] # splitOn c xs
      else case splitOn c xs of [] \<Rightarrow> [[x]] | w # ws \<Rightarrow> (x # w) # ws)"

fun joinSep :: "string \<Rightarrow> string list \<Rightarrow> string" where
  \<comment> \<open>strings.Join\<close>
  "joinSep sep [] = []"
| "joinSep sep [x] = x"
| "joinSep sep (x # y # ys) = x @ sep @ joinSep sep (y # ys)"

fun cleanElements :: "string list \<Rightarrow> string list \<Rightarrow> string list" where
  \<comment> \<open>The elements of a relative path, left to right; the first argument holds the
      elements kept so far, the last one first.\<close>
  "cleanElements kept [] = rev kept"
| "cleanElements kept (c # cs) =
     (if c = [] \<or> c = ''.'' then cleanElements kept cs
      else if c = ''..''
      then (case kept of
              [] \<Rightarrow> cleanElements [c] cs
            | k # kept' \<Rightarrow>
                if k = ''..'' then cleanElements (c # kept) cs else cleanElements kept' cs)
      else cleanElements (c # kept) cs)"

definition Clean :: "string \<Rightarrow> string" where
  \<comment> \<open>\<open>filepath.Clean\<close> on a path that does not start with a slash (every path the
      generator builds starts with \<open>outputDir\<close>): empty and \<open>.\<close> elements go, a \<open>..\<close>
      takes the element before it away, and the empty result is \<open>.\<close>.\<close>
  "Clean path =
     (case cleanElements [] (splitOn CHR ''/'' path) of
        [] \<Rightarrow> ''.''
      | c # cs \<Rightarrow> joinSep ''/'' (c # cs))"

definition Join :: "string list \<Rightarrow> string" where
  \<comment> \<open>\<open>filepath.Join\<close>: leading empty elements are dropped, the rest is joined with
      slashes and cleaned\<close>
  "Join elem =
     (case dropWhile (\<lambda>e. e = []) elem of
        [] \<Rightarrow> []
      | e # es \<Rightarrow> Clean (joinSep ''/'' (e # es)))"

definition plainSlug :: "string \<Rightarrow> bool" where
  \<comment> \<open>a slug that \<open>filepath.Join\<close> keeps as one path element of its own\<close>
  "plainSlug slug \<longleftrightarrow>
     CHR ''/'' \<notin> set slug \<and> slug \<noteq> [] \<and> slug \<noteq> ''.'' \<and> slug \<noteq> ''..''"

definition postPagePath :: "string \<Rightarrow> string" where
  \<comment> \<open>\<open>posts/{slug}/index.html\<close> under the output directory\<close>
  "postPagePath slug = ''docs/posts/'' @ slug @ ''/index.html''"

section \<open>Generating the pages\<close>

fun generatePostPages :: "World \<Rightarrow> SiteConfig \<Rightarrow> Post list \<Rightarrow> Tree \<Rightarrow> error + Tree" where
  "generatePostPages W site [] out = Inr out"
| "generatePostPages W site (post # posts) out =
     (let dir = Join [outputDir, ''posts'', Slug post]
      in case MkdirAll W dir of
           Some err \<Rightarrow> Inl err
         | None \<Rightarrow>
             let path = Join [dir, ''index.html'']
             in case Create W path of
                  Some err \<Rightarrow> Inl err
                | None \<Rightarrow>
                    let page = Single \<lparr>PageSite = site, PagePost = post\<rparr>
                    in case Execute W ''post.html'' page of
                         Some err \<Rightarrow>
                           Inl (Errorf (''executing post template for '' @ Slug post) err)
                       | None \<Rightarrow> generatePostPages W site posts (out(path \<mapsto> page)))"

definition recentPosts :: "Post list \<Rightarrow> Post list" where
  \<comment> \<open>the first lines of generateHomePage\<close>
  "recentPosts posts =
     (let recent = posts
      in if length recent > postsPerPage then take postsPerPage recent else recent)"

definition generateHomePage :: "World \<Rightarrow> SiteConfig \<Rightarrow> Post list \<Rightarrow> Tree \<Rightarrow> error + Tree" where
  "generateHomePage W site posts out =
     (let recent = recentPosts posts;
          path = Join [outputDir, ''index.html'']
      in case Create W path of
           Some err \<Rightarrow> Inl err
         | None \<Rightarrow>
             let page = Home \<lparr>HomeSite = site, HomePosts = recent\<rparr>
             in case Execute W ''home.html'' page of
                  Some err \<Rightarrow> Inl (Errorf ''executing home template'' err)
                | None \<Rightarrow> Inr (out(path \<mapsto> page)))"

definition yearPostsOf :: "(int \<rightharpoonup> Post list) \<Rightarrow> int \<Rightarrow> Post list" where
  \<comment> \<open>reading \<open>yearMap[year]\<close>: the nil slice when the key is missing\<close>
  "yearPostsOf yearMap y = (case yearMap y of None \<Rightarrow> [] | Some yearPosts \<Rightarrow> yearPosts)"

fun yearMap_loop :: "Post list \<Rightarrow> (int \<rightharpoonup> Post list) \<Rightarrow> (int \<rightharpoonup> Post list)" where
  "yearMap_loop [] yearMap = yearMap"
| "yearMap_loop (post # posts) yearMap =
     (let y = Time_Year (Date post)
      in yearMap_loop posts (yearMap(y \<mapsto> yearPostsOf yearMap y @ [post])))"

definition yearGroupsOf :: "(int \<times> Post list) list \<Rightarrow> YearGroup list" where
  \<comment> \<open>the second loop of generateArchivePage: one group appended for each entry visited\<close>
  "yearGroupsOf visited = map (\<lambda>(y, yearPosts). \<lparr>Year = y, Posts = yearPosts\<rparr>) visited"

definition archiveYears :: "World \<Rightarrow> Post list \<Rightarrow> YearGroup list" where
  \<comment> \<open>generateArchivePage up to the sorted year groups\<close>
  "archiveYears W posts =
     (let yearMap = yearMap_loop posts Map.empty;
          years = yearGroupsOf (RangeYears W yearMap)
      in SortYears W byYear years)"

definition archiveLibrary_ok :: "World \<Rightarrow> Post list \<Rightarrow> bool" where
  \<comment> \<open>\<open>range\<close> and \<open>sort.Slice\<close> keep their promises where generateArchivePage
      calls them on these posts\<close>
  "archiveLibrary_ok W posts \<longleftrightarrow>
     (let yearMap = yearMap_loop posts Map.empty;
          years = yearGroupsOf (RangeYears W yearMap)
      in range_result yearMap (RangeYears W yearMap)
         \<and> sortSlice_result byYear years (SortYears W byYear years))"

definition generateArchivePage :: "World \<Rightarrow> SiteConfig \<Rightarrow> Post list \<Rightarrow> Tree \<Rightarrow> error + Tree" where
  "generateArchivePage W site posts out =
     (let years = archiveYears W posts;
          dir = Join [outputDir, ''archive'']
      in case MkdirAll W dir of
           Some err \<Rightarrow> Inl err
         | None \<Rightarrow>
             let path = Join [dir, ''index.html'']
             in case Create W path of
                  Some err \<Rightarrow> Inl err
                | None \<Rightarrow>
                    let page = Archive \<lparr>ArchiveSite = site, Years = years\<rparr>
                    in case Execute W ''archive.html'' page of
                         Some err \<Rightarrow> Inl (Errorf ''executing archive template'' err)
                       | None \<Rightarrow> Inr (out(path \<mapsto> page)))"

section \<open>The feed\<close>

definition rssItem :: "World \<Rightarrow> SiteConfig \<Rightarrow> Post \<Rightarrow> RSSItem" where
  "rssItem W site post =
     \<lparr>ItemTitle = Title post, ItemLink = SiteURL site @ URL post,
      ItemDescription = Description post, PubDate = FormatRFC1123Z W (Date post),
      GUID = SiteURL site @ URL post\<rparr>"

definition rssFeed :: "World \<Rightarrow> SiteConfig \<Rightarrow> Post list \<Rightarrow> RSSFeed" where
  \<comment> \<open>generateRSSFeed up to the feed value; \<open>posts[0]\<close> is read under the guard
      \<open>len(posts) > 0\<close> only\<close>
  "rssFeed W site posts =
     (let feedPosts = (if length posts > postsInFeed then take postsInFeed posts else posts);
          items = map (rssItem W site) feedPosts;
          lastBuild = (case posts of [] \<Rightarrow> [] | first # _ \<Rightarrow> FormatRFC1123Z W (Date first))
      in \<lparr>Version = ''2.0'',
          Channel = \<lparr>ChannelTitle = SiteTitle site, ChannelLink = SiteURL site,
            ChannelDescription = SiteDescription site, LastBuild = lastBuild,
            Items = items\<rparr>\<rparr>)"

definition generateRSSFeed :: "World \<Rightarrow> SiteConfig \<Rightarrow> Post list \<Rightarrow> Tree \<Rightarrow> error + Tree" where
  "generateRSSFeed W site posts out =
     (let feed = rssFeed W site posts;
          path = Join [outputDir, ''feed.xml'']
      in case Create W path of
           Some err \<Rightarrow> Inl err
         | None \<Rightarrow>
             (case WriteHeader W of
                Some err \<Rightarrow> Inl err
              | None \<Rightarrow>
                  (case Encode W feed of
                     Some err \<Rightarrow> Inl (Errorf ''encoding RSS'' err)
                   | None \<Rightarrow> Inr (out(path \<mapsto> Feed feed)))))"

datatype XML =
  Element string "(string \<times> string) list" "XML list"
  | CharData string

text \<open>
  The document the encoder writes for a feed, as a tree: the name, the attributes and
  the children of each element. It follows the \<open>xml\<close> tags of RSSFeed, RSSChannel and
  RSSItem. No field is tagged \<open>omitempty\<close>, so each string field is written as an
  element whatever it holds, the empty string as an element without character data;
  a slice is written as one element for each of its members.
\<close>

definition marshalString :: "string \<Rightarrow> string \<Rightarrow> XML" where
  "marshalString name s = Element name [] (if s = [] then [] else [CharData s])"

definition marshalItem :: "RSSItem \<Rightarrow> XML" where
  "marshalItem item =
     Element ''item'' []
       [marshalString ''title'' (ItemTitle item), marshalString ''link'' (ItemLink item),
        marshalString ''description'' (ItemDescription item),
        marshalString ''pubDate'' (PubDate item), marshalString ''guid'' (GUID item)]"

definition marshalChannel :: "RSSChannel \<Rightarrow> XML" where
  "marshalChannel channel =
     Element ''channel'' []
       ([marshalString ''title'' (ChannelTitle channel),
         marshalString ''link'' (ChannelLink channel),
         marshalString ''description'' (ChannelDescription channel),
         marshalString ''lastBuildDate'' (LastBuild channel)]
        @ map marshalItem (Items channel))"

definition marshalFeed :: "RSSFeed \<Rightarrow> XML" where
  "marshalFeed feed = Element ''rss'' [(''version'', Version feed)] [marshalChannel (Channel feed)]"

fun elementNames :: "XML \<Rightarrow> string list" where
  \<comment> \<open>the names of the elements of a document, in document order\<close>
  "elementNames (CharData s) = []"
| "elementNames (Element name attrs children) = name # concat (map elementNames children)"

section \<open>A run\<close>

definition runGenerate :: "World \<Rightarrow> error + Tree" where
  \<comment> \<open>The tree returned is the one of the pages and the feed; the static files copied
      after them are not in it.\<close>
  "runGenerate W =
     (case loadConfig W of
        Inl err \<Rightarrow> Inl err
      | Inr site \<Rightarrow>
     (case CleanDir W outputDir of
        Some err \<Rightarrow> Inl (Errorf ''cleaning output dir'' err)
      | None \<Rightarrow>
     (case ParseTemplates W of
        Some err \<Rightarrow> Inl (Errorf ''parsing templates'' err)
      | None \<Rightarrow>
     (case fst (parsePosts W) of
        Inl err \<Rightarrow> Inl (Errorf ''parsing posts'' err)
      | Inr posts \<Rightarrow>
     (let posts = SortPosts W byDate posts
      in case generatePostPages W site posts Map.empty of
        Inl err \<Rightarrow> Inl (Errorf ''generating post pages'' err)
      | Inr out \<Rightarrow>
     (case generateHomePage W site posts out of
        Inl err \<Rightarrow> Inl (Errorf ''generating home page'' err)
      | Inr out \<Rightarrow>
     (case generateArchivePage W site posts out of
        Inl err \<Rightarrow> Inl (Errorf ''generating archive page'' err)
      | Inr out \<Rightarrow>
     (case generateRSSFeed W site posts out of
        Inl err \<Rightarrow> Inl (Errorf ''generating RSS feed'' err)
      | Inr out \<Rightarrow>
     (case CopyStaticFiles W of
        Some err \<Rightarrow> Inl (Errorf ''copying static files'' err)
      | None \<Rightarrow>
     (case WriteFile W (Join [outputDir, ''.nojekyll'']) of
        Some err \<Rightarrow> Inl (Errorf ''writing .nojekyll'' err)
      | None \<Rightarrow> Inr out))))))))))"

section \<open>What a page shows\<close>

fun pagePosts :: "Page \<Rightarrow> Post list" where
  "pagePosts (Home page) = HomePosts page"
| "pagePosts (Single page) = [PagePost page]"
| "pagePosts (Archive page) = concat (map Posts (Years page))"
| "pagePosts (Feed feed) = []"

fun pageItems :: "Page \<Rightarrow> RSSItem list" where
  "pageItems (Feed feed) = Items (Channel feed)"
| "pageItems page = []"

definition withoutDrafts :: "World \<Rightarrow> World" where
  \<comment> \<open>the same world with the draft files taken out of the content directory\<close>
  "withoutDrafts W =
     W\<lparr>ReadDir := (\<lambda>dir.
        if dir = contentDir
        then (case ReadDir W dir of
                Inl err \<Rightarrow> Inl err
              | Inr entries \<Rightarrow> Inr (filter (\<lambda>e. \<not> isDraftEntry W e) entries))
        else ReadDir W dir)\<rparr>"

section \<open>A content directory to evaluate on\<close>

definition exampleEntries :: "DirEntry list" where
  "exampleEntries =
     [\<lparr>Name = ''2023-12-01-first.md'', IsDir = False\<rparr>,
      \<lparr>Name = ''2024-01-01-idea.md'', IsDir = False\<rparr>,
      \<lparr>Name = ''2024-01-01-new-year.md'', IsDir = False\<rparr>,
      \<lparr>Name = ''2024-06-01-summer.md'', IsDir = False\<rparr>,
      \<lparr>Name = ''images'', IsDir = True\<rparr>,
      \<lparr>Name = ''notes.txt'', IsDir = False\<rparr>]"

fun insertBy :: "('a \<Rightarrow> 'a \<Rightarrow> bool) \<Rightarrow> 'a \<Rightarrow> 'a list \<Rightarrow> 'a list" where
  "insertBy lessFn x [] = [x]"
| "insertBy lessFn x (y # ys) = (if lessFn x y then x # y # ys else y # insertBy lessFn x ys)"

definition insertionSort :: "('a \<Rightarrow> 'a \<Rightarrow> bool) \<Rightarrow> 'a list \<Rightarrow> 'a list" where
  \<comment> \<open>one sorting function that keeps the promise of \<open>sort.Slice\<close>\<close>
  "insertionSort lessFn xs = foldr (insertBy lessFn) xs []"

definition exampleWorld :: World where
  \<comment> \<open>Four content files, a subdirectory and a text file. \<open>idea\<close> has \<open>draft: true\<close>,
      \<open>new-year\<close> has \<open>draft: false\<close>, \<open>summer\<close> has the string \<open>"true"\<close> under
      \<open>draft\<close>, \<open>first\<close> has no \<open>draft\<close> key. A file's text stands for itself.
      \<open>site.yml\<close> gives a title and no URL. No write fails.\<close>
  "exampleWorld =
     \<lparr>ReadDir = (\<lambda>dir. if dir = ''posts'' then Inr exampleEntries
                       else Inl (LibError ''no such directory'')),
      ReadFile = (\<lambda>path.
         if path \<in> set [''posts/2023-12-01-first.md'', ''posts/2024-01-01-idea.md'',
                        ''posts/2024-01-01-new-year.md'', ''posts/2024-06-01-summer.md'']
         then Inr (drop 6 path)
         else if path = ''site.yml'' then Inr ''title: Example''
         else Inl (LibError ''no such file'')),
      Convert = (\<lambda>source.
         if source = ''2023-12-01-first.md''
         then Inr (''<p>one</p>'', map_of [(''title'', VString ''First''),
                 (''date'', VString ''2023-12-01'')])
         else if source = ''2024-01-01-idea.md''
         then Inr (''<p>two</p>'', map_of [(''title'', VString ''Idea''),
                 (''date'', VString ''2024-01-01''), (''draft'', VBool True)])
         else if source = ''2024-01-01-new-year.md''
         then Inr (''<p>three</p>'', map_of [(''title'', VString ''New Year''),
                 (''date'', VString ''2024-01-01''), (''draft'', VBool False)])
         else Inr (''<p>four</p>'', map_of [(''date'', VString ''2024-06-01''),
                 (''draft'', VString ''true'')])),
      ParseTime = (\<lambda>d.
         if d = ''2023-12-01'' then Inr \<lparr>instant = 1701388800, year = 2023\<rparr>
         else if d = ''2024-01-01'' then Inr \<lparr>instant = 1704067200, year = 2024\<rparr>
         else if d = ''2024-06-01'' then Inr \<lparr>instant = 1717200000, year = 2024\<rparr>
         else Inl (LibError ''cannot parse'')),
      FormatRFC1123Z = (\<lambda>t.
         if instant t = 1701388800 then ''Fri, 01 Dec 2023 00:00:00 +0000''
         else if instant t = 1704067200 then ''Mon, 01 Jan 2024 00:00:00 +0000''
         else ''Sat, 01 Jun 2024 00:00:00 +0000''),
      Unmarshal = (\<lambda>data.
         if data = ''title: Example''
         then Inr \<lparr>SiteTitle = ''Example'', SiteURL = [], SiteDescription = []\<rparr>
         else Inl (LibError ''yaml: cannot unmarshal'')),
      SortPosts = insertionSort,
      RangeYears = (\<lambda>yearMap.
         List.map_filter (\<lambda>y. map_option (Pair y) (yearMap y)) [2023, 2024, 2025]),
      SortYears = insertionSort,
      MkdirAll = (\<lambda>path. None),
      Create = (\<lambda>path. None),
      Execute = (\<lambda>name page. None),
      WriteHeader = None,
      Encode = (\<lambda>feed. None),
      CleanDir = (\<lambda>path. None),
      ParseTemplates = None,
      CopyStaticFiles = None,
      WriteFile = (\<lambda>path. None)\<rparr>"

definition exampleSite :: SiteConfig where
  "exampleSite =
     \<lparr>SiteTitle = ''Example'', SiteURL = ''https://example.com'', SiteDescription = []\<rparr>"

definition postFirst :: Post where
  "postFirst = \<lparr>Title = ''First'', Slug = ''first'',
     Date = \<lparr>instant = 1701388800, year = 2023\<rparr>, Description = [],
     Content = ''<p>one</p>'', URL = ''/posts/first/''\<rparr>"

definition postNewYear :: Post where
  "postNewYear = \<lparr>Title = ''New Year'', Slug = ''new-year'',
     Date = \<lparr>instant = 1704067200, year = 2024\<rparr>, Description = [],
     Content = ''<p>three</p>'', URL = ''/posts/new-year/''\<rparr>"

definition postSummer :: Post where
  "postSummer = \<lparr>Title = ''Untitled'', Slug = ''summer'',
     Date = \<lparr>instant = 1717200000, year = 2024\<rparr>, Description = [],
     Content = ''<p>four</p>'', URL = ''/posts/summer/''\<rparr>"


definition numberedPost :: "int \<Rightarrow> Post" where
  \<comment> \<open>a post whose date is the instant \<open>n\<close>\<close>
  "numberedPost n =
     \<lparr>Title = ''Post'', Slug = ''post'', Date = \<lparr>instant = n, year = 2024\<rparr>,
      Description = [], Content = [], URL = ''/posts/post/''\<rparr>"

definition manyPosts :: "Post list" where
  \<comment> \<open>twenty-two posts, the oldest first\<close>
  "manyPosts = map numberedPost
     [1, 2, 3, 4, 5, 6, 7, 8, 9, 10, 11, 12, 13, 14, 15, 16, 17, 18, 19, 20, 21, 22]"

definition noConfigWorld :: World where
  \<comment> \<open>the example without its \<open>site.yml\<close>\<close>
  "noConfigWorld =
     exampleWorld\<lparr>ReadFile := (\<lambda>path.
        if path = ''site.yml'' then Inl (LibError ''open site.yml: no such file or directory'')
        else ReadFile exampleWorld path)\<rparr>"

definition collisionWorld :: World where
  \<comment> \<open>a content directory of two files, neither a draft, whose names give one slug:
      \<open>summer.md\<close> holds the text of the new-year post of the example\<close>
  "collisionWorld =
     exampleWorld\<lparr>
       ReadDir := (\<lambda>dir. Inr [\<lparr>Name = ''2024-06-01-summer.md'', IsDir = False\<rparr>,
                               \<lparr>Name = ''summer.md'', IsDir = False\<rparr>]),
       ReadFile := (\<lambda>path.
         if path = ''posts/summer.md'' then Inr ''2024-01-01-new-year.md''
         else ReadFile exampleWorld path)\<rparr>"

definition postSummer2 :: Post where
  \<comment> \<open>the post of \<open>summer.md\<close> in \<open>collisionWorld\<close>\<close>
  "postSummer2 = postNewYear\<lparr>Slug := ''summer'', URL := ''/posts/summer/''\<rparr>"

definition exampleFeed :: RSSFeed where
  "exampleFeed =
     \<lparr>Version = ''2.0'',
      Channel = \<lparr>ChannelTitle = ''Example'', ChannelLink = ''https://example.com'',
        ChannelDescription = [], LastBuild = ''Sat, 01 Jun 2024 00:00:00 +0000'',
        Items =
          [\<lparr>ItemTitle = ''Untitled'', ItemLink = ''https://example.com/posts/summer/'',
            ItemDescription = [], PubDate = ''Sat, 01 Jun 2024 00:00:00 +0000'',
            GUID = ''https://example.com/posts/summer/''\<rparr>,
           \<lparr>ItemTitle = ''New Year'', ItemLink = ''https://example.com/posts/new-year/'',
            ItemDescription = [], PubDate = ''Mon, 01 Jan 2024 00:00:00 +0000'',
            GUID = ''https://example.com/posts/new-year/''\<rparr>,
           \<lparr>ItemTitle = ''First'', ItemLink = ''https://example.com/posts/first/'',
            ItemDescription = [], PubDate = ''Fri, 01 Dec 2023 00:00:00 +0000'',
            GUID = ''https://example.com/posts/first/''\<rparr>]\<rparr>\<rparr>"

definition exampleTree :: Tree where
  \<comment> \<open>the pages and the feed of the example\<close>
  "exampleTree =
     [''docs/posts/summer/index.html''
        \<mapsto> Single \<lparr>PageSite = exampleSite, PagePost = postSummer\<rparr>,
      ''docs/posts/new-year/index.html''
        \<mapsto> Single \<lparr>PageSite = exampleSite, PagePost = postNewYear\<rparr>,
      ''docs/posts/first/index.html''
        \<mapsto> Single \<lparr>PageSite = exampleSite, PagePost = postFirst\<rparr>,
      ''docs/index.html''
        \<mapsto> Home \<lparr>HomeSite = exampleSite, HomePosts = [postSummer, postNewYear, postFirst]\<rparr>,
      ''docs/archive/index.html''
        \<mapsto> Archive \<lparr>ArchiveSite = exampleSite,
            Years = [\<lparr>Year = 2024, Posts = [postSummer, postNewYear]\<rparr>,
                     \<lparr>Year = 2023, Posts = [postFirst]\<rparr>]\<rparr>,
      ''docs/feed.xml'' \<mapsto> Feed exampleFeed]"

definition datedPost :: "string \<Rightarrow> int \<Rightarrow> Post" where
  \<comment> \<open>a post without front matter other than its date, the instant \<open>n\<close>\<close>
  "datedPost slug n =
     \<lparr>Title = ''Untitled'', Slug = slug, Date = \<lparr>instant = n, year = 2024\<rparr>,
      Description = [], Content = [], URL = ''/posts/'' @ slug @ ''/''\<rparr>"

definition sevenEntries :: "DirEntry list" where
  "sevenEntries =
     [\<lparr>Name = ''a.md'', IsDir = False\<rparr>, \<lparr>Name = ''bb.md'', IsDir = False\<rparr>,
      \<lparr>Name = ''ccc.md'', IsDir = False\<rparr>, \<lparr>Name = ''dddd.md'', IsDir = False\<rparr>,
      \<lparr>Name = ''eeeee.md'', IsDir = False\<rparr>, \<lparr>Name = ''ffffff.md'', IsDir = False\<rparr>,
      \<lparr>Name = ''ggggggg.md'', IsDir = False\<rparr>, \<lparr>Name = ''zz.md'', IsDir = False\<rparr>]"

definition sevenWorld :: World where
  \<comment> \<open>A content directory of eight files. \<open>zz.md\<close> is a draft; each of the seven
      others is dated by the length of its path, so that a longer name is a more
      recent post. The text of a file is its path.\<close>
  "sevenWorld =
     exampleWorld\<lparr>
       ReadDir := (\<lambda>dir. Inr sevenEntries),
       ReadFile := (\<lambda>path. if path = ''site.yml'' then Inr ''title: Example'' else Inr path),
       Convert := (\<lambda>source.
         if source = ''posts/zz.md'' then Inr ([], [''draft'' \<mapsto> VBool True])
         else Inr ([], [''date'' \<mapsto> VTime \<lparr>instant = int (length source), year = 2024\<rparr>]))\<rparr>"

definition sevenPosts :: "Post list" where
  \<comment> \<open>the posts of \<open>sevenWorld\<close>, in directory order\<close>
  "sevenPosts =
     [datedPost ''a'' 10, datedPost ''bb'' 11, datedPost ''ccc'' 12, datedPost ''dddd'' 13,
      datedPost ''eeeee'' 14, datedPost ''ffffff'' 15, datedPost ''ggggggg'' 16]"

definition sevenTree :: Tree where
  \<comment> \<open>the pages and the feed of \<open>sevenWorld\<close>\<close>
  "sevenTree =
     [''docs/posts/ggggggg/index.html''
        \<mapsto> Single \<lparr>PageSite = exampleSite, PagePost = datedPost ''ggggggg'' 16\<rparr>,
      ''docs/posts/ffffff/index.html''
        \<mapsto> Single \<lparr>PageSite = exampleSite, PagePost = datedPost ''ffffff'' 15\<rparr>,
      ''docs/posts/eeeee/index.html''
        \<mapsto> Single \<lparr>PageSite = exampleSite, PagePost = datedPost ''eeeee'' 14\<rparr>,
      ''docs/posts/dddd/index.html''
        \<mapsto> Single \<lparr>PageSite = exampleSite, PagePost = datedPost ''dddd'' 13\<rparr>,
      ''docs/posts/ccc/index.html''
        \<mapsto> Single \<lparr>PageSite = exampleSite, PagePost = datedPost ''ccc'' 12\<rparr>,
      ''docs/posts/bb/index.html''
        \<mapsto> Single \<lparr>PageSite = exampleSite, PagePost = datedPost ''bb'' 11\<rparr>,
      ''docs/posts/a/index.html''
        \<mapsto> Single \<lparr>PageSite = exampleSite, PagePost = datedPost ''a'' 10\<rparr>,
      ''docs/index.html''
        \<mapsto> Home \<lparr>HomeSite = exampleSite,
            HomePosts = [datedPost ''ggggggg'' 16, datedPost ''ffffff'' 15,
              datedPost ''eeeee'' 14, datedPost ''dddd'' 13, datedPost ''ccc'' 12]\<rparr>,
      ''docs/archive/index.html''
        \<mapsto> Archive \<lparr>ArchiveSite = exampleSite,
            Years = archiveYears sevenWorld (rev sevenPosts)\<rparr>,
      ''docs/feed.xml'' \<mapsto> Feed (rssFeed sevenWorld exampleSite (rev sevenPosts))]"

section \<open>Properties of slug derivation\<close>

lemma TrimSuffix_append [simp]: "TrimSuffix (s @ suffix) suffix = s"
  by (simp add: TrimSuffix_def HasSuffix_def)

lemma hasHyphenPrefix_iff:
  "hasHyphenPrefix name \<longleftrightarrow>
     length name > 11 \<and> name ! 4 = CHR ''-'' \<and> name ! 7 = CHR ''-'' \<and> name ! 10 = CHR ''-''"
  by (auto simp: hasHyphenPrefix_def hyphenPrefix_def)

lemma deriveSlug_stem:
  "deriveSlug (name @ ''.md'') = (if hasHyphenPrefix name then drop 11 name else name)"
  unfolding deriveSlug_def hasHyphenPrefix_iff Let_def TrimSuffix_append by simp

lemma datePrefix_hyphenPrefix: "datePrefix p \<Longrightarrow> hyphenPrefix p"
  by (simp add: datePrefix_def hyphenPrefix_def)

lemma deriveSlug_date_prefix:
  assumes "datePrefix p" and "rest \<noteq> []"
  shows "deriveSlug (p @ rest @ ''.md'') = rest"
proof -
  have "hyphenPrefix p"
    using assms(1) by (rule datePrefix_hyphenPrefix)
  then have "hasHyphenPrefix (p @ rest)" "length p = 11"
    using assms(2) by (simp_all add: hasHyphenPrefix_def hyphenPrefix_def)
  then show ?thesis
    using deriveSlug_stem [of "p @ rest"] by simp
qed

lemma deriveSlug_no_hyphens: "\<not> hasHyphenPrefix name \<Longrightarrow> deriveSlug (name @ ''.md'') = name"
  by (simp add: deriveSlug_stem)

text \<open>
  C1: the slug of a content filename whose stem has no date prefix is to be the stem,
  unchanged. The guard of deriveSlug, which the source comments as removing the date
  prefix \<open>YYYY-MM-DD-\<close>, tests the length and the three hyphens and never the digits.
  At \<open>what-is-my-name.md\<close>, whose stem has no date prefix (its first character is not a
  digit), deriveSlug returns \<open>name\<close> and not the stem.
\<close>

theorem deriveSlug_nondate_prefix_stripped:
  "\<not> hasDatePrefix ''what-is-my-name''
   \<and> deriveSlug ''what-is-my-name.md'' = ''name''
   \<and> deriveSlug ''what-is-my-name.md'' \<noteq> ''what-is-my-name''"
  by (simp add: hasDatePrefix_def datePrefix_def isDigit_def deriveSlug_def
      TrimSuffix_def HasSuffix_def)

section \<open>Properties of parsing\<close>

lemma isDraft_iff: "isDraft metaData \<longleftrightarrow> metaData ''draft'' = Some (VBool True)"
  by (auto simp: isDraft_def split: option.splits MetaVal.splits)

lemma parsePost_reads: "snd (parsePost W filename reads) = reads @ [contentPath filename]"
  by (simp add: parsePost_def Let_def split: sum.splits prod.splits)

lemma parsePost_result: "fst (parsePost W filename reads) = fst (parsePost W filename [])"
  by (simp add: parsePost_def Let_def split: sum.splits prod.splits)

lemma parsePost_pair:
  "parsePost W filename reads = (fst (parsePost W filename []), reads @ [contentPath filename])"
  by (metis parsePost_reads parsePost_result prod.collapse)

lemma buildPost_draft: "buildPost W filename html metaData = Inr None \<longleftrightarrow> isDraft metaData"
  by (simp add: buildPost_def Let_def split: sum.splits)

lemma parsePost_draft:
  "fst (parsePost W filename reads) = Inr None \<longleftrightarrow>
     (\<exists>metaData. frontMatter W filename = Some metaData \<and> isDraft metaData)"
  by (auto simp: parsePost_def frontMatter_def Let_def buildPost_draft
      split: sum.splits prod.splits)

lemma parseDate_ReadDir [simp]: "parseDate (W\<lparr>ReadDir := r\<rparr>) = parseDate W"
  by (intro ext) (simp add: parseDate_def split: option.splits MetaVal.splits)

lemma buildPost_ReadDir [simp]: "buildPost (W\<lparr>ReadDir := r\<rparr>) = buildPost W"
  by (intro ext) (simp add: buildPost_def)

lemma parsePost_ReadDir [simp]: "parsePost (W\<lparr>ReadDir := r\<rparr>) = parsePost W"
  by (intro ext) (simp add: parsePost_def Let_def split: sum.splits)

lemma parsePosts_loop_ReadDir [simp]:
  "parsePosts_loop (W\<lparr>ReadDir := r\<rparr>) entries posts reads = parsePosts_loop W entries posts reads"
  by (induction entries arbitrary: posts reads)
    (simp_all split: prod.splits sum.splits option.splits)

lemma parsePosts_loop_skip:
  "skipped entry \<Longrightarrow>
     parsePosts_loop W (before @ entry # after) posts reads =
     parsePosts_loop W (before @ after) posts reads"
proof (induction before arbitrary: posts reads)
  case Nil
  then show ?case by simp
next
  case (Cons b before)
  then show ?case
    by (simp split: prod.splits sum.splits option.splits)
qed

lemma parsePosts_loop_reads:
  "set (snd (parsePosts_loop W entries posts reads))
     \<subseteq> set reads \<union> {contentPath (Name e) | e. e \<in> set entries \<and> \<not> skipped e}"
proof (induction entries arbitrary: posts reads)
  case Nil
  then show ?case by simp
next
  case (Cons entry entries)
  show ?case
  proof (cases "skipped entry")
    case True
    then show ?thesis using Cons.IH [of posts reads] by auto
  next
    case False
    let ?reads = "reads @ [contentPath (Name entry)]"
    have p: "parsePost W (Name entry) reads = (fst (parsePost W (Name entry) []), ?reads)"
      by (rule parsePost_pair)
    show ?thesis
    proof (cases "fst (parsePost W (Name entry) [])")
      case (Inl err)
      then show ?thesis using False p by auto
    next
      case (Inr r)
      then show ?thesis
      proof (cases r)
        case None
        then show ?thesis using False p Inr Cons.IH [of posts ?reads] by auto
      next
        case (Some post)
        then show ?thesis
          using False p Inr Cons.IH [of "posts @ [post]" ?reads] by auto
      qed
    qed
  qed
qed

lemma parsePosts_loop_posts:
  "parsePosts_loop W entries posts reads = (Inr collected, reads') \<Longrightarrow>
     collected = posts @ List.map_filter (postOf W) entries"
proof (induction entries arbitrary: posts reads)
  case Nil
  then show ?case by (simp add: List.map_filter_simps)
next
  case (Cons entry entries)
  show ?case
  proof (cases "skipped entry")
    case True
    then show ?thesis
      using Cons by (simp add: List.map_filter_simps postOf_def)
  next
    case False
    let ?reads = "reads @ [contentPath (Name entry)]"
    have p: "parsePost W (Name entry) reads = (fst (parsePost W (Name entry) []), ?reads)"
      by (rule parsePost_pair)
    show ?thesis
    proof (cases "fst (parsePost W (Name entry) [])")
      case (Inl err)
      then show ?thesis using False p Cons.prems by simp
    next
      case (Inr r)
      then show ?thesis
      proof (cases r)
        case None
        then show ?thesis
          using False p Inr Cons.prems Cons.IH [of posts ?reads]
          by (simp add: List.map_filter_simps postOf_def)
      next
        case (Some post)
        then show ?thesis
          using False p Inr Cons.prems Cons.IH [of "posts @ [post]" ?reads]
          by (simp add: List.map_filter_simps postOf_def)
      qed
    qed
  qed
qed

lemma parsePosts_loop_no_error:
  "parsePosts_loop W entries posts reads = (Inr collected, reads') \<Longrightarrow>
     e \<in> set entries \<Longrightarrow> \<not> skipped e \<Longrightarrow>
     \<exists>r. fst (parsePost W (Name e) []) = Inr r"
proof (induction entries arbitrary: posts reads)
  case Nil
  then show ?case by simp
next
  case (Cons entry entries)
  show ?case
  proof (cases "skipped entry")
    case True
    then show ?thesis using Cons by auto
  next
    case False
    let ?reads = "reads @ [contentPath (Name entry)]"
    have p: "parsePost W (Name entry) reads = (fst (parsePost W (Name entry) []), ?reads)"
      by (rule parsePost_pair)
    show ?thesis
    proof (cases "fst (parsePost W (Name entry) [])")
      case (Inl err)
      then show ?thesis using False p Cons.prems by simp
    next
      case (Inr r)
      show ?thesis
      proof (cases "e = entry")
        case True
        then show ?thesis using Inr by simp
      next
        case ne: False
        then have mem: "e \<in> set entries" using Cons.prems by simp
        show ?thesis
        proof (cases r)
          case None
          then show ?thesis
            using False p Inr Cons.prems mem Cons.IH [of posts ?reads] by simp
        next
          case (Some post)
          then show ?thesis
            using False p Inr Cons.prems mem Cons.IH [of "posts @ [post]" ?reads] by simp
        qed
      qed
    qed
  qed
qed


lemma parsePost_Some:
  "fst (parsePost W filename reads) = Inr (Some post) \<Longrightarrow>
     Slug post = deriveSlug filename \<and> URL post = ''/posts/'' @ deriveSlug filename @ ''/''"
  by (auto simp: parsePost_def buildPost_def Let_def split: sum.splits prod.splits if_splits)

lemma contentPath_inj: "contentPath a = contentPath b \<longleftrightarrow> a = b"
  by (simp add: contentPath_def)

lemma set_map_filter: "set (List.map_filter f xs) = {y. \<exists>x \<in> set xs. f x = Some y}"
  by (induction xs) (auto simp: List.map_filter_simps split: option.splits)

lemma exampleWorld_fields:
  "ReadDir exampleWorld contentDir = Inr exampleEntries"
  "ReadFile exampleWorld ''posts/2023-12-01-first.md'' = Inr ''2023-12-01-first.md''"
  "ReadFile exampleWorld ''posts/2024-01-01-idea.md'' = Inr ''2024-01-01-idea.md''"
  "ReadFile exampleWorld ''posts/2024-01-01-new-year.md'' = Inr ''2024-01-01-new-year.md''"
  "ReadFile exampleWorld ''posts/2024-06-01-summer.md'' = Inr ''2024-06-01-summer.md''"
  by (simp_all add: exampleWorld_def contentDir_def)

lemma example_parsePost:
  "parsePost exampleWorld ''2023-12-01-first.md'' reads =
     (Inr (Some postFirst), reads @ [''posts/2023-12-01-first.md''])"
  "parsePost exampleWorld ''2024-01-01-idea.md'' reads =
     (Inr None, reads @ [''posts/2024-01-01-idea.md''])"
  "parsePost exampleWorld ''2024-01-01-new-year.md'' reads =
     (Inr (Some postNewYear), reads @ [''posts/2024-01-01-new-year.md''])"
  "parsePost exampleWorld ''2024-06-01-summer.md'' reads =
     (Inr (Some postSummer), reads @ [''posts/2024-06-01-summer.md''])"
  by (simp_all add: parsePost_def contentPath_def contentDir_def exampleWorld_def
      buildPost_def isDraft_def stringOf_def parseDate_def deriveSlug_def TrimSuffix_def
      HasSuffix_def postFirst_def postNewYear_def postSummer_def)

lemma example_skipped:
  "\<not> skipped \<lparr>Name = ''2023-12-01-first.md'', IsDir = False\<rparr>"
  "\<not> skipped \<lparr>Name = ''2024-01-01-idea.md'', IsDir = False\<rparr>"
  "\<not> skipped \<lparr>Name = ''2024-01-01-new-year.md'', IsDir = False\<rparr>"
  "\<not> skipped \<lparr>Name = ''2024-06-01-summer.md'', IsDir = False\<rparr>"
  "skipped \<lparr>Name = ''images'', IsDir = True\<rparr>"
  "skipped \<lparr>Name = ''notes.txt'', IsDir = False\<rparr>"
  by (simp_all add: skipped_def HasSuffix_def)

lemma example_parsePosts:
  "parsePosts exampleWorld =
     (Inr [postFirst, postNewYear, postSummer],
      [''posts/2023-12-01-first.md'', ''posts/2024-01-01-idea.md'',
       ''posts/2024-01-01-new-year.md'', ''posts/2024-06-01-summer.md''])"
  by (simp add: parsePosts_def exampleWorld_fields exampleEntries_def example_parsePost
      example_skipped)

section \<open>Skipped directory entries\<close>

text \<open>
  C9: a directory entry that is a subdirectory, or whose name does not end in \<open>.md\<close>, is
  passed over in silence. The run of parsePosts (its posts or its error, and the list of
  files it read) is the run on the directory without that entry; the entry contributes
  no post; and, names in a directory being distinct, its path is never read.
\<close>

theorem parsePosts_skips_entry:
  assumes "ReadDir W contentDir = Inr (before @ entry # after)"
    and "skipped entry"
  shows "parsePosts W =
           parsePosts (W\<lparr>ReadDir := (ReadDir W)(contentDir := Inr (before @ after))\<rparr>)
         \<and> postOf W entry = None
         \<and> (distinct (map Name (before @ entry # after)) \<longrightarrow>
              contentPath (Name entry) \<notin> set (snd (parsePosts W)))"
proof -
  have run: "parsePosts W = parsePosts_loop W (before @ after) [] []"
    using assms by (simp add: parsePosts_def parsePosts_loop_skip)
  have same: "parsePosts W =
      parsePosts (W\<lparr>ReadDir := (ReadDir W)(contentDir := Inr (before @ after))\<rparr>)"
    unfolding run by (simp add: parsePosts_def)
  have none: "postOf W entry = None"
    using assms(2) by (simp add: postOf_def)
  have unread: "contentPath (Name entry) \<notin> set (snd (parsePosts W))"
    if d: "distinct (map Name (before @ entry # after))"
  proof
    assume "contentPath (Name entry) \<in> set (snd (parsePosts W))"
    then have "contentPath (Name entry)
        \<in> {contentPath (Name e) | e. e \<in> set (before @ after) \<and> \<not> skipped e}"
      using parsePosts_loop_reads [of W "before @ after" "[]" "[]"] unfolding run by auto
    then have "\<exists>e. e \<in> set (before @ after) \<and> Name e = Name entry"
      by (auto simp: contentPath_inj)
    then obtain e where e: "e \<in> set (before @ after)" "Name e = Name entry"
      by blast
    from d have "Name entry \<notin> Name ` set (before @ after)"
      by auto
    with e show False by (metis imageI)
  qed
  from same none unread show ?thesis by blast
qed

theorem parsePosts_skips_entry_witness:
  "skipped \<lparr>Name = ''images'', IsDir = True\<rparr>
   \<and> skipped \<lparr>Name = ''notes.txt'', IsDir = False\<rparr>
   \<and> ''posts/images'' \<notin> set (snd (parsePosts exampleWorld))
   \<and> ''posts/notes.txt'' \<notin> set (snd (parsePosts exampleWorld))
   \<and> parsePosts exampleWorld =
       parsePosts (exampleWorld\<lparr>ReadDir := (ReadDir exampleWorld)
         (contentDir := Inr (take 4 exampleEntries @ [\<lparr>Name = ''notes.txt'', IsDir = False\<rparr>]))\<rparr>)"
proof -
  have split1: "ReadDir exampleWorld contentDir =
      Inr (take 4 exampleEntries @ \<lparr>Name = ''images'', IsDir = True\<rparr>
           # [\<lparr>Name = ''notes.txt'', IsDir = False\<rparr>])"
    by (simp add: exampleWorld_fields exampleEntries_def)
  have split2: "ReadDir exampleWorld contentDir =
      Inr (take 5 exampleEntries @ \<lparr>Name = ''notes.txt'', IsDir = False\<rparr> # [])"
    by (simp add: exampleWorld_fields exampleEntries_def)
  have d1: "distinct (map Name (take 4 exampleEntries @ \<lparr>Name = ''images'', IsDir = True\<rparr>
           # [\<lparr>Name = ''notes.txt'', IsDir = False\<rparr>]))"
    and d2: "distinct (map Name (take 5 exampleEntries
           @ \<lparr>Name = ''notes.txt'', IsDir = False\<rparr> # []))"
    by (simp_all add: exampleEntries_def)
  note dirCase = parsePosts_skips_entry [OF split1 example_skipped(5)]
  note txtCase = parsePosts_skips_entry [OF split2 example_skipped(6)]
  have "contentPath (Name \<lparr>Name = ''images'', IsDir = True\<rparr>)
      \<notin> set (snd (parsePosts exampleWorld))"
    using dirCase d1 by blast
  then have unread1: "''posts/images'' \<notin> set (snd (parsePosts exampleWorld))"
    by (simp add: contentPath_def contentDir_def)
  have "contentPath (Name \<lparr>Name = ''notes.txt'', IsDir = False\<rparr>)
      \<notin> set (snd (parsePosts exampleWorld))"
    using txtCase d2 by blast
  then have unread2: "''posts/notes.txt'' \<notin> set (snd (parsePosts exampleWorld))"
    by (simp add: contentPath_def contentDir_def)
  have same: "parsePosts exampleWorld =
       parsePosts (exampleWorld\<lparr>ReadDir := (ReadDir exampleWorld)
         (contentDir := Inr (take 4 exampleEntries @ [\<lparr>Name = ''notes.txt'', IsDir = False\<rparr>]))\<rparr>)"
    using dirCase by blast
  from example_skipped(5,6) unread1 unread2 same show ?thesis
    by blast
qed

section \<open>The draft test\<close>

text \<open>
  C10: parsePost answers "skip" exactly when the front matter has a \<open>draft\<close> key whose
  value is the boolean true. In a run of parsePosts that returns a collection, every
  content file with front matter whose \<open>draft\<close> key is absent, is the boolean false, or
  holds a value that is not a boolean, has its post in the collection, and a file with
  \<open>draft: true\<close> contributes none: the collection is the list of the posts of the
  entries, in directory order.
\<close>

theorem draft_only_when_literal_true:
  "(fst (parsePost W filename reads) = Inr None \<longleftrightarrow>
      (\<exists>metaData. frontMatter W filename = Some metaData
          \<and> metaData ''draft'' = Some (VBool True)))
   \<and> (ReadDir W contentDir = Inr entries \<and> parsePosts W = (Inr posts, reads')
        \<and> e \<in> set entries \<and> \<not> skipped e \<longrightarrow>
        posts = List.map_filter (postOf W) entries
        \<and> (\<exists>metaData. frontMatter W (Name e) = Some metaData
             \<and> (if metaData ''draft'' = Some (VBool True) then postOf W e = None
                 else \<exists>post \<in> set posts. postOf W e = Some post
                         \<and> Slug post = deriveSlug (Name e))))"
proof -
  have a: "fst (parsePost W filename reads) = Inr None \<longleftrightarrow>
      (\<exists>metaData. frontMatter W filename = Some metaData
          \<and> metaData ''draft'' = Some (VBool True))"
    by (simp add: parsePost_draft isDraft_iff)
  have b: "posts = List.map_filter (postOf W) entries
        \<and> (\<exists>metaData. frontMatter W (Name e) = Some metaData
             \<and> (if metaData ''draft'' = Some (VBool True) then postOf W e = None
                 else \<exists>post \<in> set posts. postOf W e = Some post
                         \<and> Slug post = deriveSlug (Name e)))"
    if dir: "ReadDir W contentDir = Inr entries"
      and run: "parsePosts W = (Inr posts, reads')"
      and e: "e \<in> set entries" "\<not> skipped e"
  proof -
    have loop: "parsePosts_loop W entries [] [] = (Inr posts, reads')"
      using dir run by (simp add: parsePosts_def)
    have posts: "posts = List.map_filter (postOf W) entries"
      using parsePosts_loop_posts [OF loop] by simp
    obtain r where r: "fst (parsePost W (Name e) []) = Inr r"
      using parsePosts_loop_no_error [OF loop e] by blast
    then obtain metaData where m: "frontMatter W (Name e) = Some metaData"
      by (auto simp: parsePost_def frontMatter_def Let_def split: sum.splits prod.splits)
    have "postOf W e = None" if "metaData ''draft'' = Some (VBool True)"
    proof -
      have "fst (parsePost W (Name e) []) = Inr None"
        using that m by (simp add: parsePost_draft isDraft_iff)
      then show ?thesis by (simp add: postOf_def)
    qed
    moreover have "\<exists>post \<in> set posts. postOf W e = Some post \<and> Slug post = deriveSlug (Name e)"
      if "metaData ''draft'' \<noteq> Some (VBool True)"
    proof -
      have "r \<noteq> None"
        using that m r parsePost_draft [of W "Name e" "[]"] by (auto simp: isDraft_iff)
      then obtain post where post: "r = Some post" by blast
      then have p: "postOf W e = Some post"
        using r e by (simp add: postOf_def)
      then have "post \<in> set posts"
        unfolding posts set_map_filter using e by blast
      moreover have "Slug post = deriveSlug (Name e)"
        using parsePost_Some [of W "Name e" "[]" post] r post by simp
      ultimately show ?thesis using p by blast
    qed
    ultimately show ?thesis using posts m by simp
  qed
  from a b show ?thesis by blast
qed

theorem draft_only_when_literal_true_witness:
  "fst (parsePost exampleWorld ''2024-01-01-idea.md'' []) = Inr None
   \<and> frontMatter exampleWorld ''2024-01-01-idea.md''
       = Some (map_of [(''title'', VString ''Idea''), (''date'', VString ''2024-01-01''),
           (''draft'', VBool True)])
   \<and> postOf exampleWorld \<lparr>Name = ''2024-01-01-idea.md'', IsDir = False\<rparr> = None
   \<and> postOf exampleWorld \<lparr>Name = ''2023-12-01-first.md'', IsDir = False\<rparr> = Some postFirst
   \<and> postOf exampleWorld \<lparr>Name = ''2024-01-01-new-year.md'', IsDir = False\<rparr>
       = Some postNewYear
   \<and> postOf exampleWorld \<lparr>Name = ''2024-06-01-summer.md'', IsDir = False\<rparr>
       = Some postSummer
   \<and> fst (parsePosts exampleWorld) = Inr [postFirst, postNewYear, postSummer]
   \<and> [postFirst, postNewYear, postSummer] = List.map_filter (postOf exampleWorld) exampleEntries"
proof -
  let ?idea = "\<lparr>Name = ''2024-01-01-idea.md'', IsDir = False\<rparr>"
  have fm: "frontMatter exampleWorld ''2024-01-01-idea.md''
       = Some (map_of [(''title'', VString ''Idea''), (''date'', VString ''2024-01-01''),
           (''draft'', VBool True)])"
    by (simp add: frontMatter_def contentPath_def contentDir_def exampleWorld_def)
  have mem: "?idea \<in> set exampleEntries"
    by (simp add: exampleEntries_def)
  have po: "postOf exampleWorld \<lparr>Name = ''2023-12-01-first.md'', IsDir = False\<rparr>
        = Some postFirst"
    "postOf exampleWorld \<lparr>Name = ''2024-01-01-new-year.md'', IsDir = False\<rparr>
        = Some postNewYear"
    "postOf exampleWorld \<lparr>Name = ''2024-06-01-summer.md'', IsDir = False\<rparr>
        = Some postSummer"
    by (simp_all add: postOf_def example_skipped example_parsePost)
  show ?thesis
    using draft_only_when_literal_true [of exampleWorld "''2024-01-01-idea.md''" "[]"
        exampleEntries "[postFirst, postNewYear, postSummer]"
        "snd (parsePosts exampleWorld)" ?idea]
      fm mem po example_skipped(2) exampleWorld_fields(1) example_parsePosts
    by simp
qed

section \<open>Properties of the sorted collection\<close>

lemma sortSlice_result_length: "sortSlice_result lessFn xs ys \<Longrightarrow> length ys = length xs"
  by (metis sortSlice_result_def size_mset)

lemma sortSlice_result_set: "sortSlice_result lessFn xs ys \<Longrightarrow> set ys = set xs"
  by (metis sortSlice_result_def set_mset_mset)

lemma byDate_sorted:
  "sortSlice_result byDate posts ordered \<Longrightarrow>
     sorted_wrt (\<lambda>a b. instant (Date b) \<le> instant (Date a)) ordered"
  by (simp add: sortSlice_result_def byDate_def Time_After_def not_less)

lemma Join_home: "Join [outputDir, ''index.html''] = ''docs/index.html''"
  by (simp add: Join_def Clean_def outputDir_def)

lemma Join_feed: "Join [outputDir, ''feed.xml''] = ''docs/feed.xml''"
  by (simp add: Join_def Clean_def outputDir_def)

lemma Join_archive: "Join [Join [outputDir, ''archive''], ''index.html''] = ''docs/archive/index.html''"
  by (simp add: Join_def Clean_def outputDir_def)

lemma recentPosts_take: "recentPosts posts = take 5 posts"
  by (simp add: recentPosts_def postsPerPage_def)

lemma generateHomePage_page:
  "generateHomePage W site posts out = Inr out' \<Longrightarrow>
     out' = out(''docs/index.html'' \<mapsto> Home \<lparr>HomeSite = site, HomePosts = recentPosts posts\<rparr>)"
  by (auto simp: generateHomePage_def Join_home Let_def split: option.splits)

lemma generateRSSFeed_page:
  "generateRSSFeed W site posts out = Inr out' \<Longrightarrow>
     out' = out(''docs/feed.xml'' \<mapsto> Feed (rssFeed W site posts))"
  by (auto simp: generateRSSFeed_def Join_feed Let_def split: option.splits)

lemma generateArchivePage_page:
  "generateArchivePage W site posts out = Inr out' \<Longrightarrow>
     out' = out(''docs/archive/index.html'' \<mapsto>
              Archive \<lparr>ArchiveSite = site, Years = archiveYears W posts\<rparr>)"
  by (auto simp: generateArchivePage_def Join_archive Let_def split: option.splits)

lemma rssFeed_items:
  "Items (Channel (rssFeed W site posts)) = map (rssItem W site) (take 20 posts)"
  by (simp add: rssFeed_def postsInFeed_def Let_def)

lemma rssFeed_lastBuild:
  "LastBuild (Channel (rssFeed W site posts)) =
     (if posts = [] then [] else FormatRFC1123Z W (Date (hd posts)))"
  by (simp add: rssFeed_def Let_def split: list.splits)

lemma recentPosts_most_recent:
  assumes "sortSlice_result byDate posts ordered"
  shows "length (recentPosts ordered) = min 5 (length posts)
     \<and> sorted_wrt (\<lambda>a b. instant (Date b) \<le> instant (Date a)) (recentPosts ordered)
     \<and> mset (recentPosts ordered) + mset (drop 5 ordered) = mset posts
     \<and> (\<forall>p \<in> set (recentPosts ordered). \<forall>q \<in> set (drop 5 ordered).
           instant (Date q) \<le> instant (Date p))
     \<and> (generateHomePage W site ordered out = Inr out' \<longrightarrow>
           out' ''docs/index.html'' = Some (Home \<lparr>HomeSite = site, HomePosts = recentPosts ordered\<rparr>))"
proof -
  have len: "length ordered = length posts"
    using assms by (rule sortSlice_result_length)
  have ord: "sorted_wrt (\<lambda>a b. instant (Date b) \<le> instant (Date a)) ordered"
    using assms by (rule byDate_sorted)
  have 1: "length (recentPosts ordered) = min 5 (length posts)"
    using len by (simp add: recentPosts_take)
  have 2: "sorted_wrt (\<lambda>a b. instant (Date b) \<le> instant (Date a)) (recentPosts ordered)"
    using ord by (simp add: recentPosts_take)
  have "mset (take 5 ordered) + mset (drop 5 ordered) = mset (take 5 ordered @ drop 5 ordered)"
    by (simp only: mset_append)
  then have 3: "mset (recentPosts ordered) + mset (drop 5 ordered) = mset posts"
    using assms by (simp add: recentPosts_take sortSlice_result_def)
  have "sorted_wrt (\<lambda>a b. instant (Date b) \<le> instant (Date a)) (take 5 ordered @ drop 5 ordered)"
    using ord by simp
  then have 4: "\<forall>p \<in> set (recentPosts ordered). \<forall>q \<in> set (drop 5 ordered).
      instant (Date q) \<le> instant (Date p)"
    unfolding sorted_wrt_append recentPosts_take by blast
  have 5: "generateHomePage W site ordered out = Inr out' \<longrightarrow>
      out' ''docs/index.html'' = Some (Home \<lparr>HomeSite = site, HomePosts = recentPosts ordered\<rparr>)"
    by (auto dest: generateHomePage_page)
  from 1 2 3 4 5 show ?thesis by blast
qed

section \<open>The feed\<close>

text \<open>
  C4: the feed built from the sorted collection has \<open>min 20 n\<close> items for the \<open>n\<close>
  posts of the collection, and its \<open>i\<close>-th item is the item of the \<open>i\<close>-th post of the
  sorted collection: the items are those of a prefix of it, in its order. The feed
  written at \<open>docs/feed.xml\<close> is this one.
\<close>

theorem feed_items_sorted_prefix:
  assumes "sortSlice_result byDate posts ordered"
  shows "length (Items (Channel (rssFeed W site ordered))) = min 20 (length posts)
     \<and> Items (Channel (rssFeed W site ordered)) = map (rssItem W site) (take 20 ordered)
     \<and> (\<forall>i < length (Items (Channel (rssFeed W site ordered))).
           Items (Channel (rssFeed W site ordered)) ! i = rssItem W site (ordered ! i))
     \<and> (generateRSSFeed W site ordered out = Inr out' \<longrightarrow>
           out' ''docs/feed.xml'' = Some (Feed (rssFeed W site ordered)))"
proof -
  have len: "length ordered = length posts"
    using assms by (rule sortSlice_result_length)
  have 1: "length (Items (Channel (rssFeed W site ordered))) = min 20 (length posts)"
    using len by (simp add: rssFeed_items)
  have 3: "\<forall>i < length (Items (Channel (rssFeed W site ordered))).
      Items (Channel (rssFeed W site ordered)) ! i = rssItem W site (ordered ! i)"
    by (simp add: rssFeed_items)
  have 4: "generateRSSFeed W site ordered out = Inr out' \<longrightarrow>
      out' ''docs/feed.xml'' = Some (Feed (rssFeed W site ordered))"
    by (auto dest: generateRSSFeed_page)
  from 1 3 4 show ?thesis by (simp add: rssFeed_items)
qed

section \<open>The last build date of the feed\<close>

text \<open>
  C8, as stated, fails in its second half: with no post the feed document still has a
  \<open>lastBuildDate\<close> element, an empty one, since the field is written whatever it holds.
\<close>

theorem lastBuild_empty_feed_counterexample:
  "marshalFeed (rssFeed exampleWorld exampleSite []) =
     Element ''rss'' [(''version'', ''2.0'')]
       [Element ''channel'' []
          [Element ''title'' [] [CharData ''Example''],
           Element ''link'' [] [CharData ''https://example.com''],
           Element ''description'' [] [],
           Element ''lastBuildDate'' [] []]]
   \<and> ''lastBuildDate'' \<in> set (elementNames (marshalFeed (rssFeed exampleWorld exampleSite [])))"
  by (simp add: marshalFeed_def marshalChannel_def marshalString_def rssFeed_def
      exampleSite_def Let_def)

text \<open>
  C8, amended: when the collection has a post, the last build date of the channel is the
  date of the first post of the sorted collection, formatted as the dates of the feed are,
  and no post is more recent than that one. When the collection is empty, the last build
  date is the empty string. In both cases the feed document has a \<open>lastBuildDate\<close>
  element holding it, right after the description of the channel: an element without
  character data when there is no post.
\<close>

theorem lastBuild_most_recent:
  assumes "sortSlice_result byDate posts ordered"
  shows "(posts \<noteq> [] \<longrightarrow>
            LastBuild (Channel (rssFeed W site ordered)) = FormatRFC1123Z W (Date (hd ordered))
          \<and> hd ordered \<in> set posts
          \<and> (\<forall>p \<in> set posts. instant (Date p) \<le> instant (Date (hd ordered))))
     \<and> (posts = [] \<longrightarrow> LastBuild (Channel (rssFeed W site ordered)) = []
          \<and> marshalFeed (rssFeed W site ordered) =
              Element ''rss'' [(''version'', ''2.0'')]
                [Element ''channel'' []
                   [marshalString ''title'' (SiteTitle site),
                    marshalString ''link'' (SiteURL site),
                    marshalString ''description'' (SiteDescription site),
                    Element ''lastBuildDate'' [] []]])
     \<and> (\<exists>items. marshalFeed (rssFeed W site ordered) =
              Element ''rss'' [(''version'', ''2.0'')]
                [Element ''channel'' []
                   ([marshalString ''title'' (SiteTitle site),
                     marshalString ''link'' (SiteURL site),
                     marshalString ''description'' (SiteDescription site),
                     marshalString ''lastBuildDate'' (LastBuild (Channel (rssFeed W site ordered)))]
                    @ items)])"
proof -
  have set_eq: "set ordered = set posts"
    using assms by (rule sortSlice_result_set)
  have ord: "sorted_wrt (\<lambda>a b. instant (Date b) \<le> instant (Date a)) ordered"
    using assms by (rule byDate_sorted)
  have a: "LastBuild (Channel (rssFeed W site ordered)) = FormatRFC1123Z W (Date (hd ordered))
      \<and> hd ordered \<in> set posts
      \<and> (\<forall>p \<in> set posts. instant (Date p) \<le> instant (Date (hd ordered)))"
    if "posts \<noteq> []"
  proof -
    from that set_eq have ne: "ordered \<noteq> []" by auto
    then obtain first rest where s: "ordered = first # rest"
      by (cases ordered) auto
    have hd: "hd ordered = first"
      using s by simp
    have "\<forall>p \<in> set (first # rest). instant (Date p) \<le> instant (Date first)"
      using ord unfolding s by auto
    then have "\<forall>p \<in> set posts. instant (Date p) \<le> instant (Date (hd ordered))"
      unfolding set_eq [symmetric] s by simp
    moreover have "hd ordered \<in> set posts"
      using set_eq s by auto
    moreover have "LastBuild (Channel (rssFeed W site ordered))
        = FormatRFC1123Z W (Date (hd ordered))"
      using ne by (simp add: rssFeed_lastBuild)
    ultimately show ?thesis by blast
  qed
  have b: "LastBuild (Channel (rssFeed W site ordered)) = []
      \<and> marshalFeed (rssFeed W site ordered) =
          Element ''rss'' [(''version'', ''2.0'')]
            [Element ''channel'' []
               [marshalString ''title'' (SiteTitle site),
                marshalString ''link'' (SiteURL site),
                marshalString ''description'' (SiteDescription site),
                Element ''lastBuildDate'' [] []]]"
    if "posts = []"
  proof -
    from that set_eq have "ordered = []" by auto
    then show ?thesis
      by (simp add: rssFeed_def marshalFeed_def marshalChannel_def marshalString_def Let_def)
  qed
  have c: "\<exists>items. marshalFeed (rssFeed W site ordered) =
      Element ''rss'' [(''version'', ''2.0'')]
        [Element ''channel'' []
           ([marshalString ''title'' (SiteTitle site),
             marshalString ''link'' (SiteURL site),
             marshalString ''description'' (SiteDescription site),
             marshalString ''lastBuildDate'' (LastBuild (Channel (rssFeed W site ordered)))]
            @ items)]"
    by (simp add: rssFeed_def marshalFeed_def marshalChannel_def Let_def)
  from a b c show ?thesis by blast
qed

section \<open>The feed and its last build date on examples\<close>

lemma manyPosts_sorted: "sortSlice_result byDate manyPosts (rev manyPosts)"
  by (simp add: sortSlice_result_def sorted_wrt_rev manyPosts_def numberedPost_def byDate_def
      Time_After_def)

lemma examplePosts_sorted:
  "sortSlice_result byDate [postFirst, postNewYear, postSummer]
     [postSummer, postNewYear, postFirst]"
  by (simp add: sortSlice_result_def postFirst_def postNewYear_def postSummer_def byDate_def
      Time_After_def)

theorem feed_items_sorted_prefix_witness:
  "length (Items (Channel (rssFeed exampleWorld exampleSite (rev manyPosts)))) = 20
   \<and> Items (Channel (rssFeed exampleWorld exampleSite (rev manyPosts))) ! 0
       = rssItem exampleWorld exampleSite (numberedPost 22)
   \<and> Items (Channel (rssFeed exampleWorld exampleSite (rev manyPosts))) ! 19
       = rssItem exampleWorld exampleSite (numberedPost 3)"
proof -
  have n: "length manyPosts = 22"
    by (simp add: manyPosts_def)
  have i: "rev manyPosts ! 0 = numberedPost 22" "rev manyPosts ! 19 = numberedPost 3"
    by (simp_all add: manyPosts_def)
  show ?thesis
    using feed_items_sorted_prefix [OF manyPosts_sorted, of exampleWorld exampleSite] n i
    by simp
qed

theorem lastBuild_most_recent_witness:
  "LastBuild (Channel (rssFeed exampleWorld exampleSite [postSummer, postNewYear, postFirst]))
     = ''Sat, 01 Jun 2024 00:00:00 +0000''
   \<and> LastBuild (Channel (rssFeed exampleWorld exampleSite [])) = []
   \<and> marshalFeed (rssFeed exampleWorld exampleSite []) =
       Element ''rss'' [(''version'', ''2.0'')]
         [Element ''channel'' []
            [Element ''title'' [] [CharData ''Example''],
             Element ''link'' [] [CharData ''https://example.com''],
             Element ''description'' [] [],
             Element ''lastBuildDate'' [] []]]"
proof -
  have e: "sortSlice_result byDate [] []"
    by (simp add: sortSlice_result_def)
  have f: "FormatRFC1123Z exampleWorld (Date postSummer) = ''Sat, 01 Jun 2024 00:00:00 +0000''"
    by (simp add: exampleWorld_def postSummer_def)
  show ?thesis
    using lastBuild_most_recent [OF examplePosts_sorted, of exampleWorld exampleSite]
      lastBuild_most_recent [OF e, of exampleWorld exampleSite] f
    by (simp add: marshalString_def exampleSite_def)
qed

section \<open>The site configuration\<close>

text \<open>
  C6, as stated, fails: when \<open>site.yml\<close> cannot be read, loadConfig returns an error and
  the run stops with it, although every other step of this run would succeed. No default
  configuration is used.
\<close>

theorem loadConfig_absent_counterexample:
  "loadConfig noConfigWorld =
     Inl (Errorf ''reading site.yml'' (LibError ''open site.yml: no such file or directory''))
   \<and> runGenerate noConfigWorld =
     Inl (Errorf ''reading site.yml'' (LibError ''open site.yml: no such file or directory''))
   \<and> loadConfig noConfigWorld
       \<noteq> Inr \<lparr>SiteTitle = ''My Blog'', SiteURL = ''https://example.com'', SiteDescription = []\<rparr>"
  by (simp add: loadConfig_def runGenerate_def noConfigWorld_def)

text \<open>
  C6, amended: when \<open>site.yml\<close> cannot be read, loadConfig returns the error of the read,
  wrapped as "reading site.yml", and the run returns this error before anything is
  generated. When the file is read and parsed, the title is \<open>My Blog\<close> if the file gives
  none (or an empty one) and the URL is \<open>https://example.com\<close> if the file gives none (or
  an empty one); the values the file gives are kept, and the description has no default.
\<close>

theorem loadConfig_defaults:
  "(ReadFile W ''site.yml'' = Inl err \<longrightarrow>
      loadConfig W = Inl (Errorf ''reading site.yml'' err)
      \<and> runGenerate W = Inl (Errorf ''reading site.yml'' err))
   \<and> (ReadFile W ''site.yml'' = Inr data \<and> Unmarshal W data = Inr cfg \<longrightarrow>
      loadConfig W =
        Inr \<lparr>SiteTitle = (if SiteTitle cfg = [] then ''My Blog'' else SiteTitle cfg),
             SiteURL = (if SiteURL cfg = [] then ''https://example.com'' else SiteURL cfg),
             SiteDescription = SiteDescription cfg\<rparr>)"
  by (cases cfg) (simp add: loadConfig_def runGenerate_def)

theorem loadConfig_defaults_witness:
  "loadConfig exampleWorld =
     Inr \<lparr>SiteTitle = ''Example'', SiteURL = ''https://example.com'', SiteDescription = []\<rparr>
   \<and> runGenerate noConfigWorld =
     Inl (Errorf ''reading site.yml'' (LibError ''open site.yml: no such file or directory''))"
proof -
  have r: "ReadFile exampleWorld ''site.yml'' = Inr ''title: Example''"
    "Unmarshal exampleWorld ''title: Example''
       = Inr \<lparr>SiteTitle = ''Example'', SiteURL = [], SiteDescription = []\<rparr>"
    by (simp_all add: exampleWorld_def)
  have n: "ReadFile noConfigWorld ''site.yml''
      = Inl (LibError ''open site.yml: no such file or directory'')"
    by (simp add: noConfigWorld_def)
  show ?thesis
    using loadConfig_defaults [of exampleWorld "LibError []" "''title: Example''"
        "\<lparr>SiteTitle = ''Example'', SiteURL = [], SiteDescription = []\<rparr>"]
      loadConfig_defaults [of noConfigWorld
        "LibError ''open site.yml: no such file or directory''" "[]" exampleSite] r n
    by simp
qed

section \<open>The archive\<close>

lemma yearMap_loop_lookup:
  "yearMap_loop posts yearMap y =
     (if filter (\<lambda>p. Time_Year (Date p) = y) posts = [] then yearMap y
      else Some (yearPostsOf yearMap y @ filter (\<lambda>p. Time_Year (Date p) = y) posts))"
proof (induction posts arbitrary: yearMap)
  case Nil
  then show ?case by simp
next
  case (Cons post posts)
  then show ?case
    by (simp add: Let_def yearPostsOf_def)
qed

lemma yearMap_lookup:
  "yearMap_loop posts Map.empty y = Some yearPosts \<longleftrightarrow>
     yearPosts \<noteq> [] \<and> yearPosts = filter (\<lambda>p. Time_Year (Date p) = y) posts"
  by (auto simp: yearMap_loop_lookup yearPostsOf_def)

lemma strictly_descending:
  "sorted_wrt (\<lambda>a b. \<not> f a < f b) xs \<Longrightarrow> distinct (map f xs) \<Longrightarrow>
     sorted_wrt (\<lambda>a b. (f a :: int) > f b) xs"
proof (induction xs)
  case Nil
  then show ?case by simp
next
  case (Cons x xs)
  have below: "\<forall>y \<in> set xs. f y \<le> f x"
    using Cons.prems(1) by (simp add: not_less)
  have other: "\<forall>y \<in> set xs. f y \<noteq> f x"
    using Cons.prems(2) by (metis distinct.simps(2) imageI list.simps(9) set_map)
  have "\<forall>y \<in> set xs. f y < f x"
  proof
    fix y
    assume "y \<in> set xs"
    with below other show "f y < f x"
      by (metis order_le_less)
  qed
  moreover have "sorted_wrt (\<lambda>a b. f a > f b) xs"
    using Cons by simp
  ultimately show ?case by simp
qed

lemma partition_by_key:
  "distinct ks \<Longrightarrow> \<forall>x \<in> set xs. f x \<in> set ks \<Longrightarrow>
     mset (concat (map (\<lambda>k. filter (\<lambda>x. f x = k) xs) ks)) = mset xs"
proof (induction ks arbitrary: xs)
  case Nil
  then show ?case by simp
next
  case (Cons k ks)
  let ?rest = "filter (\<lambda>x. f x \<noteq> k) xs"
  have same: "filter (\<lambda>x. f x = k') xs = filter (\<lambda>x. f x = k') ?rest" if "k' \<in> set ks" for k'
  proof -
    from that Cons.prems(1) have "k' \<noteq> k" by auto
    then have "\<And>x. (f x = k') = (f x \<noteq> k \<and> f x = k')" by auto
    then show ?thesis by simp
  qed
  have others: "map (\<lambda>k'. filter (\<lambda>x. f x = k') xs) ks
      = map (\<lambda>k'. filter (\<lambda>x. f x = k') ?rest) ks"
    using same by (intro map_cong) auto
  have ih: "mset (concat (map (\<lambda>k'. filter (\<lambda>x. f x = k') ?rest) ks)) = mset ?rest"
    using Cons.prems by (intro Cons.IH) auto
  have split: "mset (filter (\<lambda>x. f x = k) xs) + mset ?rest = mset xs"
    by (induction xs) auto
  have "mset (concat (map (\<lambda>k'. filter (\<lambda>x. f x = k') xs) (k # ks)))
      = mset (filter (\<lambda>x. f x = k) xs)
        + mset (concat (map (\<lambda>k'. filter (\<lambda>x. f x = k') xs) ks))"
    by simp
  also have "\<dots> = mset (filter (\<lambda>x. f x = k) xs) + mset ?rest"
    by (simp only: others ih)
  also have "\<dots> = mset xs"
    by (rule split)
  finally show ?case .
qed

lemma archiveYears_group:
  assumes "archiveLibrary_ok W posts" and "g \<in> set (archiveYears W posts)"
  shows "Posts g \<noteq> [] \<and> Posts g = filter (\<lambda>p. Time_Year (Date p) = Year g) posts"
proof -
  let ?m = "yearMap_loop posts Map.empty"
  let ?visited = "RangeYears W ?m"
  have years: "archiveYears W posts = SortYears W byYear (yearGroupsOf ?visited)"
    by (simp add: archiveYears_def Let_def)
  have visited: "distinct (map fst ?visited)" "map_of ?visited = ?m"
    using assms(1) by (simp_all add: archiveLibrary_ok_def range_result_def Let_def)
  have "sortSlice_result byYear (yearGroupsOf ?visited) (archiveYears W posts)"
    using assms(1) unfolding years by (simp add: archiveLibrary_ok_def Let_def)
  then have "set (archiveYears W posts) = set (yearGroupsOf ?visited)"
    by (rule sortSlice_result_set)
  with assms(2) obtain y yearPosts
    where kv: "(y, yearPosts) \<in> set ?visited" and g: "g = \<lparr>Year = y, Posts = yearPosts\<rparr>"
    by (auto simp: yearGroupsOf_def)
  from kv visited have "?m y = Some yearPosts"
    by (metis map_of_is_SomeI)
  then have "yearPosts \<noteq> [] \<and> yearPosts = filter (\<lambda>p. Time_Year (Date p) = y) posts"
    by (rule yearMap_lookup [THEN iffD1])
  moreover have "Posts g = yearPosts" "Year g = y"
    using g by simp_all
  ultimately show ?thesis
    by metis
qed

text \<open>
  C5: the year groups of the archive page partition the posts. The years of the groups
  are strictly descending. A group holds exactly the posts of its year, in the order of
  the collection given to generateArchivePage, and is not empty. Every post is in one
  group and no other, and the groups together hold every post as many times as the
  collection does. This holds in whatever order \<open>range\<close> visits the year map.
\<close>

theorem archive_year_groups:
  assumes "archiveLibrary_ok W posts"
  shows "sorted_wrt (\<lambda>a b. Year a > Year b) (archiveYears W posts)
     \<and> (\<forall>g \<in> set (archiveYears W posts).
           Posts g \<noteq> [] \<and> Posts g = filter (\<lambda>p. Time_Year (Date p) = Year g) posts)
     \<and> (\<forall>p \<in> set posts. \<exists>!g. g \<in> set (archiveYears W posts) \<and> p \<in> set (Posts g))
     \<and> mset (concat (map Posts (archiveYears W posts))) = mset posts
     \<and> (generateArchivePage W site posts out = Inr out' \<longrightarrow>
           out' ''docs/archive/index.html''
             = Some (Archive \<lparr>ArchiveSite = site, Years = archiveYears W posts\<rparr>))"
proof -
  let ?m = "yearMap_loop posts Map.empty"
  let ?visited = "RangeYears W ?m"
  let ?groups = "yearGroupsOf ?visited"
  let ?years = "archiveYears W posts"
  let ?yr = "\<lambda>p. Time_Year (Date p)"
  have years: "?years = SortYears W byYear ?groups"
    by (simp add: archiveYears_def Let_def)
  have visited: "distinct (map fst ?visited)" "map_of ?visited = ?m"
    using assms by (simp_all add: archiveLibrary_ok_def range_result_def Let_def)
  have sorted: "sortSlice_result byYear ?groups ?years"
    using assms unfolding years by (simp add: archiveLibrary_ok_def Let_def)
  have set_years: "set ?years = set ?groups"
    using sorted by (rule sortSlice_result_set)
  have keys: "map Year ?groups = map fst ?visited"
    by (simp add: yearGroupsOf_def case_prod_unfold comp_def)
  have "mset (map Year ?years) = mset (map Year ?groups)"
    using sorted by (simp add: sortSlice_result_def)
  then have distinct_years: "distinct (map Year ?years)"
    using visited(1) keys by (metis mset_eq_imp_distinct_iff)
  have "sorted_wrt (\<lambda>a b. \<not> Year a < Year b) ?years"
    using sorted by (simp add: sortSlice_result_def byYear_def)
  then have 1: "sorted_wrt (\<lambda>a b. Year a > Year b) ?years"
    using distinct_years by (rule strictly_descending)
  have group: "Posts g \<noteq> [] \<and> Posts g = filter (\<lambda>p. ?yr p = Year g) posts"
    if "g \<in> set ?years" for g
    using assms that by (rule archiveYears_group)
  have member: "\<lparr>Year = ?yr p, Posts = filter (\<lambda>q. ?yr q = ?yr p) posts\<rparr> \<in> set ?years"
    if "p \<in> set posts" for p
  proof -
    have "filter (\<lambda>q. ?yr q = ?yr p) posts \<noteq> []"
      using that by (auto simp: filter_empty_conv)
    then have "?m (?yr p) = Some (filter (\<lambda>q. ?yr q = ?yr p) posts)"
      by (simp add: yearMap_lookup)
    then have "(?yr p, filter (\<lambda>q. ?yr q = ?yr p) posts) \<in> set ?visited"
      using visited(2) by (metis map_of_SomeD)
    then show ?thesis
      unfolding set_years by (force simp: yearGroupsOf_def)
  qed
  have 3: "\<exists>!g. g \<in> set ?years \<and> p \<in> set (Posts g)" if p: "p \<in> set posts" for p
  proof (rule ex1I)
    show "\<lparr>Year = ?yr p, Posts = filter (\<lambda>q. ?yr q = ?yr p) posts\<rparr> \<in> set ?years
        \<and> p \<in> set (Posts \<lparr>Year = ?yr p, Posts = filter (\<lambda>q. ?yr q = ?yr p) posts\<rparr>)"
      using member [OF p] p by simp
  next
    fix g
    assume g: "g \<in> set ?years \<and> p \<in> set (Posts g)"
    then have posts_g: "Posts g = filter (\<lambda>q. ?yr q = Year g) posts"
      using group by blast
    with g have "?yr p = Year g" by auto
    with posts_g show "g = \<lparr>Year = ?yr p, Posts = filter (\<lambda>q. ?yr q = ?yr p) posts\<rparr>"
      by (cases g) simp
  qed
  have by_year: "map Posts ?years = map (\<lambda>y. filter (\<lambda>p. ?yr p = y) posts) (map Year ?years)"
    using group by (simp add: comp_def)
  have "\<forall>p \<in> set posts. ?yr p \<in> set (map Year ?years)"
  proof
    fix p
    assume "p \<in> set posts"
    from member [OF this] show "?yr p \<in> set (map Year ?years)"
      by force
  qed
  then have "mset (concat (map (\<lambda>y. filter (\<lambda>p. ?yr p = y) posts) (map Year ?years)))
      = mset posts"
    by (rule partition_by_key [OF distinct_years])
  then have 4: "mset (concat (map Posts ?years)) = mset posts"
    by (simp only: by_year)
  have 5: "generateArchivePage W site posts out = Inr out' \<longrightarrow>
      out' ''docs/archive/index.html''
        = Some (Archive \<lparr>ArchiveSite = site, Years = archiveYears W posts\<rparr>)"
    by (auto dest: generateArchivePage_page)
  from 1 group 3 4 5 show ?thesis by blast
qed

lemma example_yearMap:
  "yearMap_loop [postSummer, postNewYear, postFirst] Map.empty
     = [2024 \<mapsto> [postSummer, postNewYear], 2023 \<mapsto> [postFirst]]"
  by (simp add: Let_def yearPostsOf_def Time_Year_def postSummer_def postNewYear_def
      postFirst_def)

lemma example_RangeYears:
  "RangeYears exampleWorld [2024 \<mapsto> [postSummer, postNewYear], 2023 \<mapsto> [postFirst]]
     = [(2023, [postFirst]), (2024, [postSummer, postNewYear])]"
  by (simp add: exampleWorld_def List.map_filter_simps)

lemma example_archiveYears:
  "archiveYears exampleWorld [postSummer, postNewYear, postFirst]
     = [\<lparr>Year = 2024, Posts = [postSummer, postNewYear]\<rparr>, \<lparr>Year = 2023, Posts = [postFirst]\<rparr>]"
  unfolding archiveYears_def example_yearMap Let_def example_RangeYears
  by (simp add: exampleWorld_def yearGroupsOf_def insertionSort_def byYear_def)

lemma example_archiveLibrary_ok:
  "archiveLibrary_ok exampleWorld [postSummer, postNewYear, postFirst]"
proof -
  have m: "map_of [(2023, [postFirst]), (2024, [postSummer, postNewYear])]
      = [2024 \<mapsto> [postSummer, postNewYear], 2023 \<mapsto> [postFirst]]"
    by (rule ext) simp
  have s: "SortYears exampleWorld byYear
        (yearGroupsOf [(2023, [postFirst]), (2024, [postSummer, postNewYear])])
      = [\<lparr>Year = 2024, Posts = [postSummer, postNewYear]\<rparr>, \<lparr>Year = 2023, Posts = [postFirst]\<rparr>]"
    by (simp add: exampleWorld_def yearGroupsOf_def insertionSort_def byYear_def)
  show ?thesis
    unfolding archiveLibrary_ok_def example_yearMap Let_def example_RangeYears s
    by (simp add: range_result_def sortSlice_result_def m yearGroupsOf_def byYear_def)
qed

theorem archive_year_groups_witness:
  "archiveLibrary_ok exampleWorld [postSummer, postNewYear, postFirst]
   \<and> archiveYears exampleWorld [postSummer, postNewYear, postFirst]
       = [\<lparr>Year = 2024, Posts = [postSummer, postNewYear]\<rparr>, \<lparr>Year = 2023, Posts = [postFirst]\<rparr>]
   \<and> sorted_wrt (\<lambda>a b. Year a > Year b)
       [\<lparr>Year = 2024, Posts = [postSummer, postNewYear]\<rparr>, \<lparr>Year = 2023, Posts = [postFirst]\<rparr>]
   \<and> filter (\<lambda>p. Time_Year (Date p) = 2024) [postSummer, postNewYear, postFirst]
       = [postSummer, postNewYear]"
proof -
  note groups = archive_year_groups [OF example_archiveLibrary_ok,
      of exampleSite Map.empty Map.empty, unfolded example_archiveYears]
  have a: "sorted_wrt (\<lambda>a b. Year a > Year b)
      [\<lparr>Year = 2024, Posts = [postSummer, postNewYear]\<rparr>, \<lparr>Year = 2023, Posts = [postFirst]\<rparr>]"
    using groups by blast
  have "\<forall>g \<in> set [\<lparr>Year = 2024, Posts = [postSummer, postNewYear]\<rparr>,
        \<lparr>Year = 2023, Posts = [postFirst]\<rparr>].
      Posts g = filter (\<lambda>p. Time_Year (Date p) = Year g) [postSummer, postNewYear, postFirst]"
    using groups by blast
  then have b: "filter (\<lambda>p. Time_Year (Date p) = 2024) [postSummer, postNewYear, postFirst]
      = [postSummer, postNewYear]"
    by (simp add: Time_Year_def postSummer_def postNewYear_def postFirst_def)
  from example_archiveLibrary_ok example_archiveYears a b show ?thesis
    by blast
qed

section \<open>The per-post pages\<close>

lemma splitOn_no_sep: "c \<notin> set s \<Longrightarrow> splitOn c s = [s]"
  by (induction s) auto

lemma splitOn_append_sep: "c \<notin> set a \<Longrightarrow> splitOn c (a @ c # b) = a # splitOn c b"
  by (induction a) auto

lemma Join_post_dir:
  assumes "plainSlug slug"
  shows "Join [outputDir, ''posts'', slug] = ''docs/posts/'' @ slug"
proof -
  have "splitOn CHR ''/'' (''docs/posts/'' @ slug) = [''docs'', ''posts'', slug]"
    using assms by (simp add: plainSlug_def splitOn_no_sep)
  then show ?thesis
    using assms by (simp add: Join_def Clean_def outputDir_def plainSlug_def)
qed

lemma Join_post_page:
  assumes "plainSlug slug"
  shows "Join [Join [outputDir, ''posts'', slug], ''index.html''] = postPagePath slug"
proof -
  have "splitOn CHR ''/'' (slug @ CHR ''/'' # ''index.html'') = [slug, ''index.html'']"
    using assms by (simp add: plainSlug_def splitOn_append_sep)
  then have "splitOn CHR ''/'' (''docs/posts/'' @ slug @ ''/index.html'')
      = [''docs'', ''posts'', slug, ''index.html'']"
    by simp
  then have "Clean (''docs/posts/'' @ slug @ ''/index.html'') = ''docs/posts/'' @ slug @ ''/index.html''"
    using assms by (simp add: Clean_def plainSlug_def)
  then have "Join [''docs/posts/'' @ slug, ''index.html''] = ''docs/posts/'' @ slug @ ''/index.html''"
    by (simp add: Join_def)
  then show ?thesis
    unfolding Join_post_dir [OF assms] postPagePath_def .
qed

lemma postPagePath_inj: "postPagePath a = postPagePath b \<longleftrightarrow> a = b"
  by (simp add: postPagePath_def)

lemma generatePostPages_pages:
  "generatePostPages W site posts out = Inr out' \<Longrightarrow> out' path = Some page \<Longrightarrow>
     out path = Some page \<or> (\<exists>p \<in> set posts. page = Single \<lparr>PageSite = site, PagePost = p\<rparr>)"
proof (induction posts arbitrary: out)
  case Nil
  then show ?case by simp
next
  case (Cons post posts)
  let ?path = "Join [Join [outputDir, ''posts'', Slug post], ''index.html'']"
  let ?page = "Single \<lparr>PageSite = site, PagePost = post\<rparr>"
  from Cons.prems(1) have rest: "generatePostPages W site posts (out(?path \<mapsto> ?page)) = Inr out'"
    by (simp add: Let_def split: option.splits)
  from Cons.IH [OF rest Cons.prems(2)] show ?case
    by (auto split: if_splits)
qed

lemma generatePostPages_tree:
  "generatePostPages W site posts out = Inr out' \<Longrightarrow>
     \<forall>p \<in> set posts. plainSlug (Slug p) \<Longrightarrow> distinct (map Slug posts) \<Longrightarrow>
     (\<forall>p \<in> set posts. out' (postPagePath (Slug p)) = Some (Single \<lparr>PageSite = site, PagePost = p\<rparr>))
     \<and> (\<forall>path. path \<notin> (\<lambda>p. postPagePath (Slug p)) ` set posts \<longrightarrow> out' path = out path)"
proof (induction posts arbitrary: out)
  case Nil
  then show ?case by simp
next
  case (Cons post posts)
  let ?path = "postPagePath (Slug post)"
  let ?page = "Single \<lparr>PageSite = site, PagePost = post\<rparr>"
  have path: "Join [Join [outputDir, ''posts'', Slug post], ''index.html''] = ?path"
    using Cons.prems(2) by (simp add: Join_post_page)
  from Cons.prems(1) have rest: "generatePostPages W site posts (out(?path \<mapsto> ?page)) = Inr out'"
    by (simp add: Let_def path split: option.splits)
  have ih: "(\<forall>p \<in> set posts. out' (postPagePath (Slug p))
        = Some (Single \<lparr>PageSite = site, PagePost = p\<rparr>))
     \<and> (\<forall>path. path \<notin> (\<lambda>p. postPagePath (Slug p)) ` set posts \<longrightarrow>
          out' path = (out(?path \<mapsto> ?page)) path)"
    using Cons.IH [OF rest] Cons.prems(2,3) by simp
  have fresh: "?path \<notin> (\<lambda>p. postPagePath (Slug p)) ` set posts"
    using Cons.prems(3) by (auto simp: postPagePath_inj)
  then have "out' ?path = Some ?page"
    using ih by simp
  moreover have "out' path = out path"
    if "path \<notin> (\<lambda>p. postPagePath (Slug p)) ` set (post # posts)" for path
    using that ih by auto
  ultimately show ?case using ih by auto
qed

lemma isDraftEntry_iff:
  "isDraftEntry W e \<longleftrightarrow> \<not> skipped e \<and> fst (parsePost W (Name e) []) = Inr None"
  by (auto simp: isDraftEntry_def parsePost_draft isDraft_iff split: option.splits)

lemma postOf_Some_not_draft: "postOf W e = Some post \<Longrightarrow> \<not> skipped e \<and> \<not> isDraftEntry W e"
  by (auto simp: postOf_def isDraftEntry_iff split: if_splits sum.splits option.splits)

lemma postOf_iff:
  assumes "parsePosts_loop W entries posts reads = (Inr collected, reads')"
    and "e \<in> set entries"
  shows "postOf W e \<noteq> None \<longleftrightarrow> \<not> skipped e \<and> \<not> isDraftEntry W e"
proof
  assume "postOf W e \<noteq> None"
  then show "\<not> skipped e \<and> \<not> isDraftEntry W e"
    using postOf_Some_not_draft by blast
next
  assume e: "\<not> skipped e \<and> \<not> isDraftEntry W e"
  then obtain r where r: "fst (parsePost W (Name e) []) = Inr r"
    using parsePosts_loop_no_error [OF assms] by blast
  with e have "r \<noteq> None"
    by (auto simp: isDraftEntry_iff)
  with r e show "postOf W e \<noteq> None"
    by (auto simp: postOf_def)
qed

lemma parsePosts_count:
  assumes "ReadDir W contentDir = Inr entries" and "parsePosts W = (Inr posts, reads)"
  shows "posts = List.map_filter (postOf W) entries"
    and "length posts = length (filter (\<lambda>e. \<not> skipped e \<and> \<not> isDraftEntry W e) entries)"
proof -
  have loop: "parsePosts_loop W entries [] [] = (Inr posts, reads)"
    using assms by (simp add: parsePosts_def)
  show posts: "posts = List.map_filter (postOf W) entries"
    using parsePosts_loop_posts [OF loop] by simp
  have "filter (\<lambda>e. postOf W e \<noteq> None) entries
      = filter (\<lambda>e. \<not> skipped e \<and> \<not> isDraftEntry W e) entries"
    using postOf_iff [OF loop] by (intro filter_cong) auto
  then show "length posts = length (filter (\<lambda>e. \<not> skipped e \<and> \<not> isDraftEntry W e) entries)"
    unfolding posts by (simp add: List.map_filter_def)
qed

lemma exampleWorld_writes:
  "MkdirAll exampleWorld path = None"
  "Create exampleWorld path = None"
  "Execute exampleWorld name page = None"
  "WriteHeader exampleWorld = None"
  "Encode exampleWorld feed = None"
  "CleanDir exampleWorld path = None"
  "ParseTemplates exampleWorld = None"
  "CopyStaticFiles exampleWorld = None"
  "WriteFile exampleWorld path = None"
  "SortPosts exampleWorld = insertionSort"
  "SortYears exampleWorld = insertionSort"
  by (simp_all add: exampleWorld_def)

lemma collisionWorld_fields:
  "MkdirAll collisionWorld path = None"
  "Create collisionWorld path = None"
  "Execute collisionWorld name page = None"
  "SortPosts collisionWorld = insertionSort"
  "ReadDir collisionWorld dir = Inr [\<lparr>Name = ''2024-06-01-summer.md'', IsDir = False\<rparr>,
                               \<lparr>Name = ''summer.md'', IsDir = False\<rparr>]"
  "ReadFile collisionWorld ''posts/2024-06-01-summer.md'' = Inr ''2024-06-01-summer.md''"
  "ReadFile collisionWorld ''posts/summer.md'' = Inr ''2024-01-01-new-year.md''"
  "Convert collisionWorld = Convert exampleWorld"
  "ParseTime collisionWorld = ParseTime exampleWorld"
  by (simp_all add: collisionWorld_def exampleWorld_writes exampleWorld_fields)

lemma collision_parsePost:
  "parsePost collisionWorld ''2024-06-01-summer.md'' reads =
     (Inr (Some postSummer), reads @ [''posts/2024-06-01-summer.md''])"
  "parsePost collisionWorld ''summer.md'' reads =
     (Inr (Some postSummer2), reads @ [''posts/summer.md''])"
proof -
  have c: "Convert exampleWorld ''2024-06-01-summer.md''
      = Inr (''<p>four</p>'', map_of [(''date'', VString ''2024-06-01''),
                 (''draft'', VString ''true'')])"
    "Convert exampleWorld ''2024-01-01-new-year.md''
      = Inr (''<p>three</p>'', map_of [(''title'', VString ''New Year''),
                 (''date'', VString ''2024-01-01''), (''draft'', VBool False)])"
    by (simp_all add: exampleWorld_def)
  have t: "ParseTime exampleWorld ''2024-06-01'' = Inr \<lparr>instant = 1717200000, year = 2024\<rparr>"
    "ParseTime exampleWorld ''2024-01-01'' = Inr \<lparr>instant = 1704067200, year = 2024\<rparr>"
    by (simp_all add: exampleWorld_def)
  show "parsePost collisionWorld ''2024-06-01-summer.md'' reads =
     (Inr (Some postSummer), reads @ [''posts/2024-06-01-summer.md''])"
    by (simp add: parsePost_def contentPath_def contentDir_def collisionWorld_fields c t
        buildPost_def isDraft_def stringOf_def parseDate_def deriveSlug_def TrimSuffix_def
        HasSuffix_def postSummer_def)
  show "parsePost collisionWorld ''summer.md'' reads =
     (Inr (Some postSummer2), reads @ [''posts/summer.md''])"
    by (simp add: parsePost_def contentPath_def contentDir_def collisionWorld_fields c t
        buildPost_def isDraft_def stringOf_def parseDate_def deriveSlug_def TrimSuffix_def
        HasSuffix_def postSummer2_def postNewYear_def)
qed

text \<open>
  C7, as stated, fails. Two content files that are not drafts, \<open>2024-06-01-summer.md\<close>
  and \<open>summer.md\<close>, have the slug \<open>summer\<close>: the page of the second replaces the page
  of the first, and one path is written for two files. And two posts of distinct slugs,
  the empty slug of \<open>.md\<close> and the slug \<open>.\<close> of \<open>..md\<close>, are written to one path
  too, since joining the path drops both elements.
\<close>

theorem post_pages_collision_counterexample:
  "parsePosts collisionWorld =
     (Inr [postSummer, postSummer2], [''posts/2024-06-01-summer.md'', ''posts/summer.md''])
   \<and> generatePostPages collisionWorld exampleSite
        (SortPosts collisionWorld byDate [postSummer, postSummer2]) Map.empty
      = Inr [''docs/posts/summer/index.html''
               \<mapsto> Single \<lparr>PageSite = exampleSite, PagePost = postSummer2\<rparr>]
   \<and> card (dom [''docs/posts/summer/index.html''
               \<mapsto> Single \<lparr>PageSite = exampleSite, PagePost = postSummer2\<rparr>]) = 1
   \<and> deriveSlug ''.md'' = [] \<and> deriveSlug ''..md'' = ''.''
   \<and> generatePostPages exampleWorld exampleSite
        [postFirst\<lparr>Slug := []\<rparr>, postFirst\<lparr>Slug := ''.''\<rparr>] Map.empty
      = Inr [''docs/posts/index.html''
               \<mapsto> Single \<lparr>PageSite = exampleSite, PagePost = postFirst\<lparr>Slug := ''.''\<rparr>\<rparr>]"
proof -
  have slugs: "deriveSlug ''.md'' = []" "deriveSlug ''..md'' = ''.''"
    by (simp_all add: deriveSlug_def TrimSuffix_def HasSuffix_def)
  have parse: "parsePosts collisionWorld =
     (Inr [postSummer, postSummer2], [''posts/2024-06-01-summer.md'', ''posts/summer.md''])"
    by (simp add: parsePosts_def collisionWorld_fields collision_parsePost skipped_def
        HasSuffix_def)
  have order: "SortPosts collisionWorld byDate [postSummer, postSummer2]
      = [postSummer, postSummer2]"
    by (simp add: collisionWorld_fields insertionSort_def byDate_def
        Time_After_def postSummer_def postSummer2_def postNewYear_def)
  have pages: "generatePostPages collisionWorld exampleSite [postSummer, postSummer2] Map.empty
      = Inr [''docs/posts/summer/index.html''
               \<mapsto> Single \<lparr>PageSite = exampleSite, PagePost = postSummer2\<rparr>]"
    by (simp add: collisionWorld_fields Join_post_page plainSlug_def postPagePath_def
        postSummer_def postSummer2_def postNewYear_def)
  have dots: "generatePostPages exampleWorld exampleSite
        [postFirst\<lparr>Slug := []\<rparr>, postFirst\<lparr>Slug := ''.''\<rparr>] Map.empty
      = Inr [''docs/posts/index.html''
               \<mapsto> Single \<lparr>PageSite = exampleSite, PagePost = postFirst\<lparr>Slug := ''.''\<rparr>\<rparr>]"
    by (simp add: exampleWorld_writes Join_def Clean_def outputDir_def postFirst_def)
  show ?thesis
    unfolding order using parse pages dots slugs by simp
qed

text \<open>
  C7, amended: in a run that parses the content directory and writes the per-post pages
  without an error, when the slugs of the posts are pairwise distinct and none of them is
  empty, \<open>.\<close> or \<open>..\<close> (a file name holds no slash), the paths written for the posts are
  the paths \<open>docs/posts/{slug}/index.html\<close> of the posts, each holding the page of its
  post, and their number is the number of content files that are not drafts.
\<close>

theorem post_pages_count:
  assumes "ReadDir W contentDir = Inr entries"
    and "parsePosts W = (Inr posts, reads)"
    and "sortSlice_result byDate posts ordered"
    and "generatePostPages W site ordered Map.empty = Inr out"
    and "distinct (map Slug posts)"
    and "\<forall>p \<in> set posts. plainSlug (Slug p)"
  shows "card (dom out) = length (filter (\<lambda>e. \<not> skipped e \<and> \<not> isDraftEntry W e) entries)
     \<and> dom out = (\<lambda>p. postPagePath (Slug p)) ` set posts
     \<and> (\<forall>p \<in> set posts.
           out (postPagePath (Slug p)) = Some (Single \<lparr>PageSite = site, PagePost = p\<rparr>))"
proof -
  have set_eq: "set ordered = set posts"
    using assms(3) by (rule sortSlice_result_set)
  have "mset (map Slug ordered) = mset (map Slug posts)"
    using assms(3) by (simp add: sortSlice_result_def)
  then have d: "distinct (map Slug ordered)"
    using assms(5) by (metis mset_eq_imp_distinct_iff)
  have plain: "\<forall>p \<in> set ordered. plainSlug (Slug p)"
    using assms(6) set_eq by simp
  note tree = generatePostPages_tree [OF assms(4) plain d]
  have pages: "\<forall>p \<in> set posts.
      out (postPagePath (Slug p)) = Some (Single \<lparr>PageSite = site, PagePost = p\<rparr>)"
    using tree set_eq by simp
  have unwritten: "\<forall>path. path \<notin> (\<lambda>p. postPagePath (Slug p)) ` set ordered \<longrightarrow> out path = None"
    using tree by simp
  have dom: "dom out = (\<lambda>p. postPagePath (Slug p)) ` set posts"
  proof
    show "dom out \<subseteq> (\<lambda>p. postPagePath (Slug p)) ` set posts"
    proof
      fix path
      assume "path \<in> dom out"
      then have "out path \<noteq> None" by auto
      then have "path \<in> (\<lambda>p. postPagePath (Slug p)) ` set ordered"
        using unwritten by (cases "path \<in> (\<lambda>p. postPagePath (Slug p)) ` set ordered") simp_all
      then show "path \<in> (\<lambda>p. postPagePath (Slug p)) ` set posts"
        by (simp only: set_eq)
    qed
    show "(\<lambda>p. postPagePath (Slug p)) ` set posts \<subseteq> dom out"
      using pages by auto
  qed
  have "distinct (map (\<lambda>p. postPagePath (Slug p)) ordered)"
    using d by (simp add: distinct_map inj_on_def postPagePath_inj)
  then have "card (set (map (\<lambda>p. postPagePath (Slug p)) ordered)) = length ordered"
    by (metis distinct_card length_map)
  then have "card (dom out) = length ordered"
    using dom set_eq by simp
  also have "\<dots> = length posts"
    using assms(3) by (rule sortSlice_result_length)
  also have "\<dots> = length (filter (\<lambda>e. \<not> skipped e \<and> \<not> isDraftEntry W e) entries)"
    using parsePosts_count(2) [OF assms(1,2)] .
  finally show ?thesis
    using dom pages by blast
qed

lemma example_post_pages:
  "generatePostPages exampleWorld exampleSite [postSummer, postNewYear, postFirst] Map.empty
     = Inr [''docs/posts/summer/index.html''
              \<mapsto> Single \<lparr>PageSite = exampleSite, PagePost = postSummer\<rparr>,
            ''docs/posts/new-year/index.html''
              \<mapsto> Single \<lparr>PageSite = exampleSite, PagePost = postNewYear\<rparr>,
            ''docs/posts/first/index.html''
              \<mapsto> Single \<lparr>PageSite = exampleSite, PagePost = postFirst\<rparr>]"
  by (simp add: exampleWorld_writes Join_post_page plainSlug_def postPagePath_def
      postSummer_def postNewYear_def postFirst_def)

lemma example_isDraftEntry:
  "\<not> isDraftEntry exampleWorld \<lparr>Name = ''2023-12-01-first.md'', IsDir = False\<rparr>"
  "isDraftEntry exampleWorld \<lparr>Name = ''2024-01-01-idea.md'', IsDir = False\<rparr>"
  "\<not> isDraftEntry exampleWorld \<lparr>Name = ''2024-01-01-new-year.md'', IsDir = False\<rparr>"
  "\<not> isDraftEntry exampleWorld \<lparr>Name = ''2024-06-01-summer.md'', IsDir = False\<rparr>"
  "\<not> isDraftEntry exampleWorld \<lparr>Name = ''images'', IsDir = True\<rparr>"
  "\<not> isDraftEntry exampleWorld \<lparr>Name = ''notes.txt'', IsDir = False\<rparr>"
  by (simp_all add: isDraftEntry_iff example_skipped example_parsePost)

theorem post_pages_count_witness:
  "card (dom [''docs/posts/summer/index.html''
              \<mapsto> Single \<lparr>PageSite = exampleSite, PagePost = postSummer\<rparr>,
            ''docs/posts/new-year/index.html''
              \<mapsto> Single \<lparr>PageSite = exampleSite, PagePost = postNewYear\<rparr>,
            ''docs/posts/first/index.html''
              \<mapsto> Single \<lparr>PageSite = exampleSite, PagePost = postFirst\<rparr>]) = 3
   \<and> length (filter (\<lambda>e. \<not> skipped e \<and> \<not> isDraftEntry exampleWorld e) exampleEntries) = 3"
proof -
  have d: "distinct (map Slug [postFirst, postNewYear, postSummer])"
    by (simp add: postFirst_def postNewYear_def postSummer_def)
  have p: "\<forall>p \<in> set [postFirst, postNewYear, postSummer]. plainSlug (Slug p)"
    by (simp add: plainSlug_def postFirst_def postNewYear_def postSummer_def)
  have n: "length (filter (\<lambda>e. \<not> skipped e \<and> \<not> isDraftEntry exampleWorld e) exampleEntries) = 3"
    by (simp add: exampleEntries_def example_skipped example_isDraftEntry)
  note count = post_pages_count [OF exampleWorld_fields(1) example_parsePosts
      examplePosts_sorted example_post_pages d p]
  then have "card (dom [''docs/posts/summer/index.html''
              \<mapsto> Single \<lparr>PageSite = exampleSite, PagePost = postSummer\<rparr>,
            ''docs/posts/new-year/index.html''
              \<mapsto> Single \<lparr>PageSite = exampleSite, PagePost = postNewYear\<rparr>,
            ''docs/posts/first/index.html''
              \<mapsto> Single \<lparr>PageSite = exampleSite, PagePost = postFirst\<rparr>])
      = length (filter (\<lambda>e. \<not> skipped e \<and> \<not> isDraftEntry exampleWorld e) exampleEntries)"
    by blast
  with n show ?thesis
    by (simp only:)
qed

section \<open>Drafts\<close>

lemma runGenerate_Inr:
  assumes "runGenerate W = Inr out"
  obtains site posts pages where
    "loadConfig W = Inr site"
    "fst (parsePosts W) = Inr posts"
    "generatePostPages W site (SortPosts W byDate posts) Map.empty = Inr pages"
    "out = pages(''docs/index.html'' \<mapsto>
              Home \<lparr>HomeSite = site, HomePosts = recentPosts (SortPosts W byDate posts)\<rparr>,
            ''docs/archive/index.html'' \<mapsto>
              Archive \<lparr>ArchiveSite = site, Years = archiveYears W (SortPosts W byDate posts)\<rparr>,
            ''docs/feed.xml'' \<mapsto> Feed (rssFeed W site (SortPosts W byDate posts)))"
proof -
  from assms obtain site where site: "loadConfig W = Inr site"
    by (cases "loadConfig W") (simp_all add: runGenerate_def)
  from assms site have clean: "CleanDir W outputDir = None" "ParseTemplates W = None"
    by (simp_all add: runGenerate_def split: option.splits)
  from assms site clean obtain posts where posts: "fst (parsePosts W) = Inr posts"
    by (cases "fst (parsePosts W)") (simp_all add: runGenerate_def)
  let ?ordered = "SortPosts W byDate posts"
  from assms site clean posts obtain pages
    where pages: "generatePostPages W site ?ordered Map.empty = Inr pages"
    by (cases "generatePostPages W site ?ordered Map.empty")
      (simp_all add: runGenerate_def Let_def)
  from assms site clean posts pages obtain out1
    where out1: "generateHomePage W site ?ordered pages = Inr out1"
    by (cases "generateHomePage W site ?ordered pages") (simp_all add: runGenerate_def Let_def)
  from assms site clean posts pages out1 obtain out2
    where out2: "generateArchivePage W site ?ordered out1 = Inr out2"
    by (cases "generateArchivePage W site ?ordered out1")
      (simp_all add: runGenerate_def Let_def)
  from assms site clean posts pages out1 out2 obtain out3
    where out3: "generateRSSFeed W site ?ordered out2 = Inr out3"
    by (cases "generateRSSFeed W site ?ordered out2") (simp_all add: runGenerate_def Let_def)
  from assms site clean posts pages out1 out2 out3 have "out = out3"
    by (simp add: runGenerate_def Let_def split: option.splits)
  then have "out = pages(''docs/index.html'' \<mapsto>
              Home \<lparr>HomeSite = site, HomePosts = recentPosts ?ordered\<rparr>,
            ''docs/archive/index.html'' \<mapsto>
              Archive \<lparr>ArchiveSite = site, Years = archiveYears W ?ordered\<rparr>,
            ''docs/feed.xml'' \<mapsto> Feed (rssFeed W site ?ordered))"
    using generateHomePage_page [OF out1] generateArchivePage_page [OF out2]
      generateRSSFeed_page [OF out3]
    by simp
  with site posts pages show thesis
    by (rule that)
qed

lemma generatePostPages_ReadDir:
  "generatePostPages (W\<lparr>ReadDir := r\<rparr>) site posts out = generatePostPages W site posts out"
  by (induction posts arbitrary: out)
    (simp_all add: Let_def cong: option.case_cong)

lemma loadConfig_ReadDir: "loadConfig (W\<lparr>ReadDir := r\<rparr>) = loadConfig W"
  by (simp add: loadConfig_def cong: sum.case_cong)

lemma generateHomePage_ReadDir: "generateHomePage (W\<lparr>ReadDir := r\<rparr>) = generateHomePage W"
  by (intro ext) (simp add: generateHomePage_def Let_def cong: option.case_cong)

lemma archiveYears_ReadDir: "archiveYears (W\<lparr>ReadDir := r\<rparr>) = archiveYears W"
  by (intro ext) (simp add: archiveYears_def)

lemma generateArchivePage_ReadDir:
  "generateArchivePage (W\<lparr>ReadDir := r\<rparr>) = generateArchivePage W"
  by (intro ext)
    (simp add: generateArchivePage_def archiveYears_ReadDir Let_def cong: option.case_cong)

lemma rssItem_ReadDir: "rssItem (W\<lparr>ReadDir := r\<rparr>) = rssItem W"
  by (intro ext) (simp add: rssItem_def)

lemma rssFeed_ReadDir: "rssFeed (W\<lparr>ReadDir := r\<rparr>) = rssFeed W"
  by (intro ext) (simp add: rssFeed_def rssItem_ReadDir cong: list.case_cong)

lemma generateRSSFeed_ReadDir: "generateRSSFeed (W\<lparr>ReadDir := r\<rparr>) = generateRSSFeed W"
  by (intro ext)
    (simp add: generateRSSFeed_def rssFeed_ReadDir Let_def cong: option.case_cong)

lemma runGenerate_ReadDir:
  assumes "fst (parsePosts (W\<lparr>ReadDir := r\<rparr>)) = fst (parsePosts W)"
  shows "runGenerate (W\<lparr>ReadDir := r\<rparr>) = runGenerate W"
  unfolding runGenerate_def assms loadConfig_ReadDir generatePostPages_ReadDir
    generateHomePage_ReadDir generateArchivePage_ReadDir generateRSSFeed_ReadDir
  by (simp cong: sum.case_cong option.case_cong)

lemma parsePosts_loop_without_drafts:
  "fst (parsePosts_loop W (filter (\<lambda>e. \<not> isDraftEntry W e) entries) posts reads)
     = fst (parsePosts_loop W entries posts reads')"
proof (induction entries arbitrary: posts reads reads')
  case Nil
  then show ?case by simp
next
  case (Cons entry entries)
  define result where "result = fst (parsePost W (Name entry) [])"
  have p: "parsePost W (Name entry) rs = (result, rs @ [contentPath (Name entry)])" for rs
    unfolding result_def by (rule parsePost_pair)
  have draft: "isDraftEntry W entry \<longleftrightarrow> \<not> skipped entry \<and> result = Inr None"
    unfolding result_def by (rule isDraftEntry_iff)
  show ?case
  proof (cases "skipped entry")
    case True
    then have "\<not> isDraftEntry W entry"
      by (simp add: draft)
    with True show ?thesis
      using Cons.IH by simp
  next
    case False
    show ?thesis
    proof (cases result)
      case (Inl err)
      then have "\<not> isDraftEntry W entry"
        by (simp add: draft)
      with False Inl show ?thesis
        by (simp add: p)
    next
      case (Inr r)
      show ?thesis
      proof (cases r)
        case None
        then have "isDraftEntry W entry"
          using False Inr by (simp add: draft)
        with False Inr None show ?thesis
          using Cons.IH by (simp add: p)
      next
        case (Some post)
        then have "\<not> isDraftEntry W entry"
          using Inr by (simp add: draft)
        with False Inr Some show ?thesis
          using Cons.IH by (simp add: p)
      qed
    qed
  qed
qed

lemma runGenerate_withoutDrafts: "runGenerate (withoutDrafts W) = runGenerate W"
proof -
  let ?r = "\<lambda>dir. if dir = contentDir
        then (case ReadDir W dir of
                Inl err \<Rightarrow> Inl err
              | Inr entries \<Rightarrow> Inr (filter (\<lambda>e. \<not> isDraftEntry W e) entries))
        else ReadDir W dir"
  have "fst (parsePosts (W\<lparr>ReadDir := ?r\<rparr>)) = fst (parsePosts W)"
    by (cases "ReadDir W contentDir")
      (simp_all add: parsePosts_def parsePosts_loop_without_drafts)
  then show ?thesis
    unfolding withoutDrafts_def by (rule runGenerate_ReadDir)
qed

lemma published_posts:
  assumes "ReadDir W contentDir = Inr entries" and "fst (parsePosts W) = Inr posts"
    and "p \<in> set posts"
  shows "\<exists>e \<in> set entries. \<not> isDraftEntry W e \<and> postOf W e = Some p"
proof -
  obtain reads where "parsePosts W = (Inr posts, reads)"
    using assms(2) by (cases "parsePosts W") simp
  then have "posts = List.map_filter (postOf W) entries"
    using assms(1) by (rule parsePosts_count(1) [rotated])
  with assms(3) obtain e where "e \<in> set entries" "postOf W e = Some p"
    by (auto simp: set_map_filter)
  then show ?thesis
    using postOf_Some_not_draft by blast
qed

text \<open>
  C2: a content file whose front matter has \<open>draft: true\<close> contributes no post, and
  nothing a run generates comes from it. In a run that succeeds, every post shown on
  a page of the output tree (the recent posts of the home page, the post of a per-post
  page, the posts of the year groups of the archive page) is the post of a content file
  that is not a draft, and every item of the feed is the item of such a post. The home
  page, the archive page and the feed are in the tree, and the whole tree is the one the
  run generates when the draft files are taken out of the content directory.
\<close>

theorem drafts_never_published:
  assumes "runGenerate W = Inr out"
    and "ReadDir W contentDir = Inr entries"
    and "loadConfig W = Inr site"
    and "fst (parsePosts W) = Inr posts"
    and "sortSlice_result byDate posts (SortPosts W byDate posts)"
    and "archiveLibrary_ok W (SortPosts W byDate posts)"
  shows "(\<forall>e \<in> set entries. isDraftEntry W e \<longrightarrow> postOf W e = None)
     \<and> (\<forall>path page. out path = Some page \<longrightarrow>
          (\<forall>p \<in> set (pagePosts page).
              \<exists>e \<in> set entries. \<not> isDraftEntry W e \<and> postOf W e = Some p)
          \<and> (\<forall>item \<in> set (pageItems page).
              \<exists>e \<in> set entries. \<exists>p. \<not> isDraftEntry W e \<and> postOf W e = Some p
                \<and> item = rssItem W site p))
     \<and> (\<exists>home archive feed. out ''docs/index.html'' = Some (Home home)
          \<and> out ''docs/archive/index.html'' = Some (Archive archive)
          \<and> out ''docs/feed.xml'' = Some (Feed feed))
     \<and> runGenerate (withoutDrafts W) = Inr out"
proof -
  let ?ordered = "SortPosts W byDate posts"
  let ?home = "Home \<lparr>HomeSite = site, HomePosts = recentPosts ?ordered\<rparr>"
  let ?archive = "Archive \<lparr>ArchiveSite = site, Years = archiveYears W ?ordered\<rparr>"
  let ?feed = "Feed (rssFeed W site ?ordered)"
  obtain pages where pages: "generatePostPages W site ?ordered Map.empty = Inr pages"
    and out: "out = pages(''docs/index.html'' \<mapsto> ?home,
        ''docs/archive/index.html'' \<mapsto> ?archive, ''docs/feed.xml'' \<mapsto> ?feed)"
    using runGenerate_Inr [OF assms(1)] assms(3,4)
    by (metis sum.inject(2))
  have set_eq: "set ?ordered = set posts"
    using assms(5) by (rule sortSlice_result_set)
  have published: "\<exists>e \<in> set entries. \<not> isDraftEntry W e \<and> postOf W e = Some p"
    if "p \<in> set ?ordered" for p
    using that published_posts [OF assms(2,4)] set_eq by blast
  have 1: "\<forall>e \<in> set entries. isDraftEntry W e \<longrightarrow> postOf W e = None"
    by (simp add: isDraftEntry_iff postOf_def)
  have home: "set (pagePosts ?home) \<subseteq> set ?ordered" "pageItems ?home = []"
    by (auto simp: recentPosts_take dest: in_set_takeD)
  have archive: "set (pagePosts ?archive) \<subseteq> set ?ordered" "pageItems ?archive = []"
    using archiveYears_group [OF assms(6)] by auto
  have feed: "pagePosts ?feed = []"
    "set (pageItems ?feed) \<subseteq> rssItem W site ` set ?ordered"
    by (auto simp: rssFeed_items dest: in_set_takeD)
  have single: "set (pagePosts page) \<subseteq> set ?ordered \<and> pageItems page = []"
    if "pages path = Some page" for path page
    using generatePostPages_pages [OF pages that] by auto
  have shown: "set (pagePosts page) \<subseteq> set ?ordered
      \<and> set (pageItems page) \<subseteq> rssItem W site ` set ?ordered"
    if "out path = Some page" for path page
  proof (cases "path = ''docs/feed.xml''")
    case True
    then have "page = ?feed"
      using that unfolding out by simp
    then show ?thesis using feed by simp
  next
    case not_feed: False
    show ?thesis
    proof (cases "path = ''docs/archive/index.html''")
      case True
      then have "page = ?archive"
        using that unfolding out by simp
      then show ?thesis using archive by simp
    next
      case not_archive: False
      show ?thesis
      proof (cases "path = ''docs/index.html''")
        case True
        then have "page = ?home"
          using that unfolding out by simp
        then show ?thesis using home by simp
      next
        case False
        then have "pages path = Some page"
          using that not_feed not_archive unfolding out by simp
        then show ?thesis using single by simp
      qed
    qed
  qed
  have 2: "\<forall>path page. out path = Some page \<longrightarrow>
      (\<forall>p \<in> set (pagePosts page).
          \<exists>e \<in> set entries. \<not> isDraftEntry W e \<and> postOf W e = Some p)
      \<and> (\<forall>item \<in> set (pageItems page).
          \<exists>e \<in> set entries. \<exists>p. \<not> isDraftEntry W e \<and> postOf W e = Some p
            \<and> item = rssItem W site p)"
  proof (intro allI impI conjI ballI)
    fix path page p
    assume "out path = Some page" "p \<in> set (pagePosts page)"
    then have "p \<in> set ?ordered"
      using shown by blast
    then show "\<exists>e \<in> set entries. \<not> isDraftEntry W e \<and> postOf W e = Some p"
      by (rule published)
  next
    fix path page item
    assume "out path = Some page" "item \<in> set (pageItems page)"
    then obtain p where p: "p \<in> set ?ordered" "item = rssItem W site p"
      using shown by blast
    from published [OF p(1)] p(2)
    show "\<exists>e \<in> set entries. \<exists>p. \<not> isDraftEntry W e \<and> postOf W e = Some p
        \<and> item = rssItem W site p"
      by blast
  qed
  have 3: "\<exists>home archive feed. out ''docs/index.html'' = Some (Home home)
      \<and> out ''docs/archive/index.html'' = Some (Archive archive)
      \<and> out ''docs/feed.xml'' = Some (Feed feed)"
    unfolding out by simp
  have 4: "runGenerate (withoutDrafts W) = Inr out"
    using assms(1) by (simp add: runGenerate_withoutDrafts)
  from 1 2 3 4 show ?thesis by blast
qed

section \<open>A run on the example\<close>

lemma example_loadConfig: "loadConfig exampleWorld = Inr exampleSite"
  by (simp add: loadConfig_def exampleWorld_def exampleSite_def)

lemma example_insertionSort:
  "insertionSort byDate [postFirst, postNewYear, postSummer]
     = [postSummer, postNewYear, postFirst]"
  by (simp add: insertionSort_def byDate_def Time_After_def
      postFirst_def postNewYear_def postSummer_def)

lemma example_SortPosts:
  "SortPosts exampleWorld byDate [postFirst, postNewYear, postSummer]
     = [postSummer, postNewYear, postFirst]"
  by (simp add: exampleWorld_writes example_insertionSort)

lemma example_rssFeed:
  "rssFeed exampleWorld exampleSite [postSummer, postNewYear, postFirst] = exampleFeed"
proof -
  have f: "FormatRFC1123Z exampleWorld (Date postSummer) = ''Sat, 01 Jun 2024 00:00:00 +0000''"
    "FormatRFC1123Z exampleWorld (Date postNewYear) = ''Mon, 01 Jan 2024 00:00:00 +0000''"
    "FormatRFC1123Z exampleWorld (Date postFirst) = ''Fri, 01 Dec 2023 00:00:00 +0000''"
    by (simp_all add: exampleWorld_def postSummer_def postNewYear_def postFirst_def)
  have p: "Title postSummer = ''Untitled''" "URL postSummer = ''/posts/summer/''"
    "Description postSummer = []"
    "Title postNewYear = ''New Year''" "URL postNewYear = ''/posts/new-year/''"
    "Description postNewYear = []"
    "Title postFirst = ''First''" "URL postFirst = ''/posts/first/''"
    "Description postFirst = []"
    by (simp_all add: postSummer_def postNewYear_def postFirst_def)
  show ?thesis
    by (simp add: rssFeed_def rssItem_def postsInFeed_def f p exampleFeed_def exampleSite_def)
qed

lemma example_runGenerate: "runGenerate exampleWorld = Inr exampleTree"
proof -
  let ?ordered = "[postSummer, postNewYear, postFirst]"
  have home: "generateHomePage exampleWorld exampleSite ?ordered out
      = Inr (out(''docs/index.html'' \<mapsto> Home \<lparr>HomeSite = exampleSite, HomePosts = ?ordered\<rparr>))"
    for out
    by (simp add: generateHomePage_def Join_home exampleWorld_writes recentPosts_take)
  have archive: "generateArchivePage exampleWorld exampleSite ?ordered out
      = Inr (out(''docs/archive/index.html'' \<mapsto> Archive \<lparr>ArchiveSite = exampleSite,
            Years = [\<lparr>Year = 2024, Posts = [postSummer, postNewYear]\<rparr>,
                     \<lparr>Year = 2023, Posts = [postFirst]\<rparr>]\<rparr>))"
    for out
    by (simp add: generateArchivePage_def Join_archive exampleWorld_writes
        example_archiveYears)
  have feed: "generateRSSFeed exampleWorld exampleSite ?ordered out
      = Inr (out(''docs/feed.xml'' \<mapsto> Feed exampleFeed))"
    for out
    by (simp add: generateRSSFeed_def Join_feed exampleWorld_writes example_rssFeed)
  show ?thesis
    by (simp only: runGenerate_def example_loadConfig exampleWorld_writes example_parsePosts
        example_insertionSort example_post_pages home archive feed exampleTree_def
        Let_def fst_conv sum.case option.case)
qed

theorem drafts_never_published_witness:
  "runGenerate exampleWorld = Inr exampleTree
   \<and> isDraftEntry exampleWorld \<lparr>Name = ''2024-01-01-idea.md'', IsDir = False\<rparr>
   \<and> postOf exampleWorld \<lparr>Name = ''2024-01-01-idea.md'', IsDir = False\<rparr> = None
   \<and> exampleTree ''docs/index.html''
       = Some (Home \<lparr>HomeSite = exampleSite, HomePosts = [postSummer, postNewYear, postFirst]\<rparr>)
   \<and> runGenerate (withoutDrafts exampleWorld) = Inr exampleTree"
proof -
  have posts: "fst (parsePosts exampleWorld) = Inr [postFirst, postNewYear, postSummer]"
    by (simp add: example_parsePosts)
  have ordered: "sortSlice_result byDate [postFirst, postNewYear, postSummer]
      (SortPosts exampleWorld byDate [postFirst, postNewYear, postSummer])"
    unfolding example_SortPosts by (rule examplePosts_sorted)
  have lib: "archiveLibrary_ok exampleWorld
      (SortPosts exampleWorld byDate [postFirst, postNewYear, postSummer])"
    unfolding example_SortPosts by (rule example_archiveLibrary_ok)
  note run = drafts_never_published [OF example_runGenerate exampleWorld_fields(1)
      example_loadConfig posts ordered lib]
  have idea: "\<lparr>Name = ''2024-01-01-idea.md'', IsDir = False\<rparr> \<in> set exampleEntries"
    by (simp add: exampleEntries_def)
  have home: "exampleTree ''docs/index.html''
      = Some (Home \<lparr>HomeSite = exampleSite, HomePosts = [postSummer, postNewYear, postFirst]\<rparr>)"
    by (simp add: exampleTree_def)
  have "postOf exampleWorld \<lparr>Name = ''2024-01-01-idea.md'', IsDir = False\<rparr> = None"
    using run idea example_isDraftEntry(2) by blast
  moreover have "runGenerate (withoutDrafts exampleWorld) = Inr exampleTree"
    using run by blast
  ultimately show ?thesis
    using example_runGenerate example_isDraftEntry(2) home by blast
qed

section \<open>The home page\<close>

text \<open>
  C3: in a run that succeeds, whatever order \<open>sort.Slice\<close> gives to posts of equal date
  in runGenerate, the page written at \<open>docs/index.html\<close> is the home page of the site,
  and it lists \<open>min 5 n\<close> posts, \<open>n\<close> being the number of posts parsePosts returned,
  which is the number of content files that are not drafts. The posts listed are the
  first ones of the collection as runGenerate sorted it: they are in order of date, the
  most recent first; together with the posts left out they make up the collection; and
  no post left out is more recent than a post listed.
\<close>

theorem home_page_most_recent:
  assumes "runGenerate W = Inr out"
    and "ReadDir W contentDir = Inr entries"
    and "fst (parsePosts W) = Inr posts"
    and "sortSlice_result byDate posts (SortPosts W byDate posts)"
  shows "\<exists>site recent older.
       loadConfig W = Inr site
     \<and> out ''docs/index.html'' = Some (Home \<lparr>HomeSite = site, HomePosts = recent\<rparr>)
     \<and> recent = recentPosts (SortPosts W byDate posts)
     \<and> length recent = min 5 (length posts)
     \<and> length posts = length (filter (\<lambda>e. \<not> skipped e \<and> \<not> isDraftEntry W e) entries)
     \<and> sorted_wrt (\<lambda>a b. instant (Date b) \<le> instant (Date a)) recent
     \<and> mset recent + mset older = mset posts
     \<and> (\<forall>p \<in> set recent. \<forall>q \<in> set older. instant (Date q) \<le> instant (Date p))"
proof -
  from assms(1) obtain site parsed pages
    where site: "loadConfig W = Inr site"
      and parsed: "fst (parsePosts W) = Inr parsed"
      and out: "out = pages(''docs/index.html'' \<mapsto>
              Home \<lparr>HomeSite = site, HomePosts = recentPosts (SortPosts W byDate parsed)\<rparr>,
            ''docs/archive/index.html'' \<mapsto>
              Archive \<lparr>ArchiveSite = site, Years = archiveYears W (SortPosts W byDate parsed)\<rparr>,
            ''docs/feed.xml'' \<mapsto> Feed (rssFeed W site (SortPosts W byDate parsed)))"
    by (rule runGenerate_Inr)
  have same: "parsed = posts"
    using parsed assms(3) by simp
  let ?ordered = "SortPosts W byDate posts"
  have page: "out ''docs/index.html''
      = Some (Home \<lparr>HomeSite = site, HomePosts = recentPosts ?ordered\<rparr>)"
    unfolding out same by simp
  obtain reads where "parsePosts W = (Inr posts, reads)"
    using assms(3) by (cases "parsePosts W") simp
  then have count: "length posts
      = length (filter (\<lambda>e. \<not> skipped e \<and> \<not> isDraftEntry W e) entries)"
    using assms(2) by (rule parsePosts_count(2) [rotated])
  have "length (recentPosts ?ordered) = min 5 (length posts)
     \<and> sorted_wrt (\<lambda>a b. instant (Date b) \<le> instant (Date a)) (recentPosts ?ordered)
     \<and> mset (recentPosts ?ordered) + mset (drop 5 ?ordered) = mset posts
     \<and> (\<forall>p \<in> set (recentPosts ?ordered). \<forall>q \<in> set (drop 5 ?ordered).
           instant (Date q) \<le> instant (Date p))"
    using recentPosts_most_recent [OF assms(4), of W site Map.empty Map.empty] by blast
  with site page count show ?thesis
    by blast
qed

lemma sevenWorld_fields:
  "MkdirAll sevenWorld path = None"
  "Create sevenWorld path = None"
  "Execute sevenWorld name page = None"
  "WriteHeader sevenWorld = None"
  "Encode sevenWorld feed = None"
  "CleanDir sevenWorld path = None"
  "ParseTemplates sevenWorld = None"
  "CopyStaticFiles sevenWorld = None"
  "WriteFile sevenWorld path = None"
  "SortPosts sevenWorld = insertionSort"
  "ReadDir sevenWorld dir = Inr sevenEntries"
  "ReadFile sevenWorld ''site.yml'' = Inr ''title: Example''"
  "Unmarshal sevenWorld ''title: Example''
     = Inr \<lparr>SiteTitle = ''Example'', SiteURL = [], SiteDescription = []\<rparr>"
  by (simp_all add: sevenWorld_def exampleWorld_writes) (simp add: exampleWorld_def)

lemma seven_loadConfig: "loadConfig sevenWorld = Inr exampleSite"
  by (simp add: loadConfig_def sevenWorld_fields exampleSite_def)

lemma seven_parsePost:
  "parsePost sevenWorld ''a.md'' reads = (Inr (Some (datedPost ''a'' 10)), reads @ [''posts/a.md''])"
  "parsePost sevenWorld ''bb.md'' reads
     = (Inr (Some (datedPost ''bb'' 11)), reads @ [''posts/bb.md''])"
  "parsePost sevenWorld ''ccc.md'' reads
     = (Inr (Some (datedPost ''ccc'' 12)), reads @ [''posts/ccc.md''])"
  "parsePost sevenWorld ''dddd.md'' reads
     = (Inr (Some (datedPost ''dddd'' 13)), reads @ [''posts/dddd.md''])"
  "parsePost sevenWorld ''eeeee.md'' reads
     = (Inr (Some (datedPost ''eeeee'' 14)), reads @ [''posts/eeeee.md''])"
  "parsePost sevenWorld ''ffffff.md'' reads
     = (Inr (Some (datedPost ''ffffff'' 15)), reads @ [''posts/ffffff.md''])"
  "parsePost sevenWorld ''ggggggg.md'' reads
     = (Inr (Some (datedPost ''ggggggg'' 16)), reads @ [''posts/ggggggg.md''])"
  "parsePost sevenWorld ''zz.md'' reads = (Inr None, reads @ [''posts/zz.md''])"
proof -
  have r: "ReadFile sevenWorld path = (if path = ''site.yml'' then Inr ''title: Example'' else Inr path)"
    for path
    by (simp add: sevenWorld_def)
  have c: "Convert sevenWorld source =
      (if source = ''posts/zz.md'' then Inr ([], [''draft'' \<mapsto> VBool True])
       else Inr ([], [''date'' \<mapsto> VTime \<lparr>instant = int (length source), year = 2024\<rparr>]))"
    for source
    by (simp add: sevenWorld_def)
  show "parsePost sevenWorld ''a.md'' reads
      = (Inr (Some (datedPost ''a'' 10)), reads @ [''posts/a.md''])"
    "parsePost sevenWorld ''bb.md'' reads
      = (Inr (Some (datedPost ''bb'' 11)), reads @ [''posts/bb.md''])"
    "parsePost sevenWorld ''ccc.md'' reads
      = (Inr (Some (datedPost ''ccc'' 12)), reads @ [''posts/ccc.md''])"
    "parsePost sevenWorld ''dddd.md'' reads
      = (Inr (Some (datedPost ''dddd'' 13)), reads @ [''posts/dddd.md''])"
    "parsePost sevenWorld ''eeeee.md'' reads
      = (Inr (Some (datedPost ''eeeee'' 14)), reads @ [''posts/eeeee.md''])"
    "parsePost sevenWorld ''ffffff.md'' reads
      = (Inr (Some (datedPost ''ffffff'' 15)), reads @ [''posts/ffffff.md''])"
    "parsePost sevenWorld ''ggggggg.md'' reads
      = (Inr (Some (datedPost ''ggggggg'' 16)), reads @ [''posts/ggggggg.md''])"
    "parsePost sevenWorld ''zz.md'' reads = (Inr None, reads @ [''posts/zz.md''])"
    by (simp_all add: parsePost_def contentPath_def contentDir_def r c buildPost_def
        isDraft_def stringOf_def parseDate_def deriveSlug_def TrimSuffix_def HasSuffix_def
        datedPost_def)
qed

lemma seven_parsePosts:
  "parsePosts sevenWorld =
     (Inr sevenPosts,
      [''posts/a.md'', ''posts/bb.md'', ''posts/ccc.md'', ''posts/dddd.md'',
       ''posts/eeeee.md'', ''posts/ffffff.md'', ''posts/ggggggg.md'', ''posts/zz.md''])"
  by (simp add: parsePosts_def sevenWorld_fields sevenEntries_def seven_parsePost skipped_def
      HasSuffix_def sevenPosts_def)

lemma seven_insertionSort: "insertionSort byDate sevenPosts = rev sevenPosts"
  by (simp add: insertionSort_def byDate_def Time_After_def sevenPosts_def datedPost_def)

lemma seven_sorted: "sortSlice_result byDate sevenPosts (SortPosts sevenWorld byDate sevenPosts)"
  unfolding sevenWorld_fields seven_insertionSort
  by (simp add: sortSlice_result_def sorted_wrt_rev sevenPosts_def datedPost_def byDate_def
      Time_After_def)

lemma seven_post_pages:
  "generatePostPages sevenWorld exampleSite (rev sevenPosts) Map.empty
     = Inr [''docs/posts/ggggggg/index.html''
        \<mapsto> Single \<lparr>PageSite = exampleSite, PagePost = datedPost ''ggggggg'' 16\<rparr>,
      ''docs/posts/ffffff/index.html''
        \<mapsto> Single \<lparr>PageSite = exampleSite, PagePost = datedPost ''ffffff'' 15\<rparr>,
      ''docs/posts/eeeee/index.html''
        \<mapsto> Single \<lparr>PageSite = exampleSite, PagePost = datedPost ''eeeee'' 14\<rparr>,
      ''docs/posts/dddd/index.html''
        \<mapsto> Single \<lparr>PageSite = exampleSite, PagePost = datedPost ''dddd'' 13\<rparr>,
      ''docs/posts/ccc/index.html''
        \<mapsto> Single \<lparr>PageSite = exampleSite, PagePost = datedPost ''ccc'' 12\<rparr>,
      ''docs/posts/bb/index.html''
        \<mapsto> Single \<lparr>PageSite = exampleSite, PagePost = datedPost ''bb'' 11\<rparr>,
      ''docs/posts/a/index.html''
        \<mapsto> Single \<lparr>PageSite = exampleSite, PagePost = datedPost ''a'' 10\<rparr>]"
proof -
  have slug: "Slug (datedPost slug n) = slug" for slug n
    by (simp add: datedPost_def)
  show ?thesis
    by (simp add: sevenPosts_def sevenWorld_fields slug Join_post_page plainSlug_def
        postPagePath_def)
qed

lemma seven_runGenerate: "runGenerate sevenWorld = Inr sevenTree"
proof -
  let ?ordered = "rev sevenPosts"
  have recent: "recentPosts ?ordered =
      [datedPost ''ggggggg'' 16, datedPost ''ffffff'' 15, datedPost ''eeeee'' 14,
       datedPost ''dddd'' 13, datedPost ''ccc'' 12]"
    by (simp add: recentPosts_take sevenPosts_def)
  have home: "generateHomePage sevenWorld exampleSite ?ordered out
      = Inr (out(''docs/index.html'' \<mapsto>
          Home \<lparr>HomeSite = exampleSite, HomePosts = recentPosts ?ordered\<rparr>))"
    for out
    by (simp add: generateHomePage_def Join_home sevenWorld_fields)
  have archive: "generateArchivePage sevenWorld exampleSite ?ordered out
      = Inr (out(''docs/archive/index.html'' \<mapsto> Archive \<lparr>ArchiveSite = exampleSite,
            Years = archiveYears sevenWorld ?ordered\<rparr>))"
    for out
    by (simp add: generateArchivePage_def Join_archive sevenWorld_fields)
  have feed: "generateRSSFeed sevenWorld exampleSite ?ordered out
      = Inr (out(''docs/feed.xml'' \<mapsto> Feed (rssFeed sevenWorld exampleSite ?ordered)))"
    for out
    by (simp add: generateRSSFeed_def Join_feed sevenWorld_fields)
  show ?thesis
    by (simp only: runGenerate_def seven_loadConfig sevenWorld_fields seven_parsePosts
        seven_insertionSort seven_post_pages home archive feed recent sevenTree_def
        Let_def fst_conv sum.case option.case)
qed

theorem home_page_most_recent_witness:
  "runGenerate sevenWorld = Inr sevenTree
   \<and> fst (parsePosts sevenWorld) = Inr sevenPosts
   \<and> sevenTree ''docs/index.html''
       = Some (Home \<lparr>HomeSite = exampleSite,
            HomePosts = [datedPost ''ggggggg'' 16, datedPost ''ffffff'' 15,
              datedPost ''eeeee'' 14, datedPost ''dddd'' 13, datedPost ''ccc'' 12]\<rparr>)
   \<and> length [datedPost ''ggggggg'' 16, datedPost ''ffffff'' 15,
              datedPost ''eeeee'' 14, datedPost ''dddd'' 13, datedPost ''ccc'' 12]
       = min 5 (length sevenPosts)
   \<and> length sevenPosts = 7"
proof -
  have posts: "fst (parsePosts sevenWorld) = Inr sevenPosts"
    by (simp add: seven_parsePosts)
  have home: "sevenTree ''docs/index.html''
       = Some (Home \<lparr>HomeSite = exampleSite,
            HomePosts = [datedPost ''ggggggg'' 16, datedPost ''ffffff'' 15,
              datedPost ''eeeee'' 14, datedPost ''dddd'' 13, datedPost ''ccc'' 12]\<rparr>)"
    by (simp add: sevenTree_def)
  obtain site recent older
    where page: "sevenTree ''docs/index.html'' = Some (Home \<lparr>HomeSite = site, HomePosts = recent\<rparr>)"
      and len: "length recent = min 5 (length sevenPosts)"
    using home_page_most_recent [OF seven_runGenerate sevenWorld_fields(11) posts seven_sorted]
    by blast
  from page home have "recent = [datedPost ''ggggggg'' 16, datedPost ''ffffff'' 15,
              datedPost ''eeeee'' 14, datedPost ''dddd'' 13, datedPost ''ccc'' 12]"
    by simp
  with len have "length [datedPost ''ggggggg'' 16, datedPost ''ffffff'' 15,
              datedPost ''eeeee'' 14, datedPost ''dddd'' 13, datedPost ''ccc'' 12]
       = min 5 (length sevenPosts)"
    by (simp only:)
  moreover have "length sevenPosts = 7"
    by (simp add: sevenPosts_def)
  ultimately show ?thesis
    using seven_runGenerate posts home by blast
qed

end
